theory Spec2Isabelle
  imports Complex_Main
begin

section \<open>JavaScript values\<close>

text \<open>
  A JavaScript string is a sequence of UTF-16 code units; a code unit is modelled as a
  natural number, so that the non-ASCII characters the program names (the currency signs,
  the Unicode white space of \<^verbatim>\<open>\s\<close> and \<^verbatim>\<open>trim\<close>) are single elements, as they are
  in the program. \<open>js\<close> embeds an ASCII literal.
\<close>

type_synonym jsstring = "nat list"

definition js :: "string \<Rightarrow> jsstring" where
  "js s = map of_char s"

text \<open>
  A JavaScript number is an IEEE-754 double: a finite value (always one a double can
  hold), an infinity or NaN. The sign of zero is not modelled.
\<close>

datatype number = Fin rat | PInf | NInf | NaN

text \<open>
  The values a request body, a JSON document or the variable \<^verbatim>\<open>pdfUrl\<close> can hold.
  An object is the list of its own properties; \<^verbatim>\<open>JSON.parse\<close> keeps one entry per key.
\<close>

datatype jsval =
    JUndef
  | JNull
  | JBool bool
  | JNum number
  | JStr jsstring
  | JArr "jsval list"
  | JObj "(jsstring \<times> jsval) list"

text \<open>\<^verbatim>\<open>!!v\<close>: undefined, null, false, 0, NaN and the empty string are falsy.\<close>

fun truthy :: "jsval \<Rightarrow> bool" where
  "truthy JUndef = False"
| "truthy JNull = False"
| "truthy (JBool b) = b"
| "truthy (JNum n) = (n \<noteq> Fin 0 \<and> n \<noteq> NaN)"
| "truthy (JStr s) = (s \<noteq> [])"
| "truthy (JArr _) = True"
| "truthy (JObj _) = True"

text \<open>\<^verbatim>\<open>typeof v === 'object'\<close> holds of null, arrays and objects.\<close>

fun typeof_object :: "jsval \<Rightarrow> bool" where
  "typeof_object JNull = True"
| "typeof_object (JArr _) = True"
| "typeof_object (JObj _) = True"
| "typeof_object _ = False"

text \<open>
  \<^verbatim>\<open>v.name\<close> for the property names the program reads (\<^verbatim>\<open>email\<close>, \<^verbatim>\<open>secret\<close>,
  \<^verbatim>\<open>url\<close>, \<^verbatim>\<open>file\<close>, \<^verbatim>\<open>submit_url\<close>): an object yields its own property or undefined;
  arrays, strings, numbers and booleans have no property of these names. Reading a
  property of undefined or null throws; the program never does so, and the model
  returns undefined there.
\<close>

fun getprop :: "jsval \<Rightarrow> jsstring \<Rightarrow> jsval" where
  "getprop (JObj kvs) k = (case map_of kvs k of Some v \<Rightarrow> v | None \<Rightarrow> JUndef)"
| "getprop _ k = JUndef"

section \<open>Regular expressions\<close>

text \<open>
  The program's regular expressions, as syntax trees, and the backtracking matcher of
  JavaScript for the constructs they use. Every quantified subexpression of the program
  is a character class, so \<open>Rep\<close> (greedy \<^verbatim>\<open>{lo,hi}\<close>, with \<^verbatim>\<open>*\<close> and \<^verbatim>\<open>+\<close> as \<open>Rep p 0 None\<close>
  and \<open>Rep p 1 None\<close>) and \<open>Lazy\<close> (\<^verbatim>\<open>*?\<close>) take a class. None of the expressions has the
  \<^verbatim>\<open>m\<close> or \<^verbatim>\<open>u\<close> flag: \<^verbatim>\<open>^\<close> and \<^verbatim>\<open>$\<close> match at the two ends of the input only, and
  matching is by code unit.
\<close>

datatype rx =
    Eps
  | Cls "nat \<Rightarrow> bool"
  | Cat rx rx
  | Alt rx rx
  | Opt rx
  | Rep "nat \<Rightarrow> bool" nat "nat option"
  | Lazy "nat \<Rightarrow> bool"
  | Grp rx
  | Bol
  | Eol

text \<open>
  A greedy quantifier tries the longest run first and gives characters back one at a
  time, down to \<open>lo\<close>; \<open>k j\<close> continues the match after \<open>j\<close> characters.
\<close>

fun backoff :: "nat \<Rightarrow> nat \<Rightarrow> (nat \<Rightarrow> 'a option) \<Rightarrow> 'a option" where
  "backoff lo j k =
     (if j < lo then None
      else case k j of
             Some r \<Rightarrow> Some r
           | None \<Rightarrow> if j = 0 then None else backoff lo (j - 1) k)"

declare backoff.simps [simp del]

definition run_length :: "(nat \<Rightarrow> bool) \<Rightarrow> nat option \<Rightarrow> jsstring \<Rightarrow> nat" where
  "run_length p hi s =
     (let n = length (takeWhile p s) in case hi of None \<Rightarrow> n | Some h \<Rightarrow> min h n)"

text \<open>A lazy quantifier tries the continuation first and takes one more character on failure.\<close>

fun rep_lazy ::
  "(nat \<Rightarrow> bool) \<Rightarrow> nat \<Rightarrow> jsstring \<Rightarrow> (nat \<Rightarrow> jsstring \<Rightarrow> 'a option) \<Rightarrow> 'a option" where
  "rep_lazy p i [] k = k i []"
| "rep_lazy p i (c # cs) k =
     (case k i (c # cs) of
        Some r \<Rightarrow> Some r
      | None \<Rightarrow> if p c then rep_lazy p (i + 1) cs k else None)"

text \<open>
  \<open>rmatch r i s g k\<close> matches \<open>r\<close> at index \<open>i\<close>, where \<open>s\<close> is the input from \<open>i\<close> on and
  \<open>g\<close> the groups captured so far, and hands the end index, the remaining input and the
  groups to the continuation \<open>k\<close>; a failing continuation makes the matcher backtrack.
\<close>

fun rmatch ::
  "rx \<Rightarrow> nat \<Rightarrow> jsstring \<Rightarrow> jsstring list
     \<Rightarrow> (nat \<Rightarrow> jsstring \<Rightarrow> jsstring list \<Rightarrow> 'a option) \<Rightarrow> 'a option" where
  "rmatch Eps i s g k = k i s g"
| "rmatch (Cls p) i s g k =
     (case s of [] \<Rightarrow> None | c # cs \<Rightarrow> if p c then k (i + 1) cs g else None)"
| "rmatch (Cat a b) i s g k = rmatch a i s g (\<lambda>i' s' g'. rmatch b i' s' g' k)"
| "rmatch (Alt a b) i s g k =
     (case rmatch a i s g k of Some r \<Rightarrow> Some r | None \<Rightarrow> rmatch b i s g k)"
| "rmatch (Opt a) i s g k =
     (case rmatch a i s g k of Some r \<Rightarrow> Some r | None \<Rightarrow> k i s g)"
| "rmatch (Rep p lo hi) i s g k =
     backoff lo (run_length p hi s) (\<lambda>j. k (i + j) (drop j s) g)"
| "rmatch (Lazy p) i s g k = rep_lazy p i s (\<lambda>i' s'. k i' s' g)"
| "rmatch (Grp a) i s g k = rmatch a i s g (\<lambda>i' s' g'. k i' s' (g' @ [take (i' - i) s]))"
| "rmatch Bol i s g k = (if i = 0 then k i s g else None)"
| "rmatch Eol i s g k = (if s = [] then k i s g else None)"

text \<open>
  A match: \<^verbatim>\<open>m[0]\<close>, the captured groups in the order they closed, the index after the
  match (\<^verbatim>\<open>lastIndex\<close> of a global expression) and the input from there on.
\<close>

record rmatch_result =
  whole :: jsstring
  groups :: "jsstring list"
  endpos :: nat
  rest :: jsstring

definition match_at :: "rx \<Rightarrow> nat \<Rightarrow> jsstring \<Rightarrow> rmatch_result option" where
  "match_at r i s =
     rmatch r i s []
       (\<lambda>i' s' g. Some \<lparr>whole = take (i' - i) s, groups = g, endpos = i', rest = s'\<rparr>)"

text \<open>\<^verbatim>\<open>exec\<close>: the leftmost match at or after index \<open>i\<close>, the end of the input included.\<close>

fun search :: "rx \<Rightarrow> nat \<Rightarrow> jsstring \<Rightarrow> rmatch_result option" where
  "search r i [] = match_at r i []"
| "search r i (c # cs) =
     (case match_at r i (c # cs) of Some m \<Rightarrow> Some m | None \<Rightarrow> search r (i + 1) cs)"

text \<open>\<^verbatim>\<open>re.test(s)\<close> and \<^verbatim>\<open>s.match(re)\<close> of an expression without the \<^verbatim>\<open>g\<close> flag.\<close>

definition test :: "rx \<Rightarrow> jsstring \<Rightarrow> bool" where
  "test r s = (search r 0 s \<noteq> None)"

text \<open>
  \<^verbatim>\<open>while ((m = re.exec(txt)) !== null) ...\<close> with a global expression, collecting every
  match: each call searches from \<^verbatim>\<open>lastIndex\<close>, the end of the match before. A match
  that leaves \<^verbatim>\<open>lastIndex\<close> where it was is found again for ever: the loop does not
  return, which is the value \<open>None\<close>.
\<close>

fun exec_all :: "rx \<Rightarrow> nat \<Rightarrow> jsstring \<Rightarrow> rmatch_result list option" where
  "exec_all r i s =
     (case search r i s of
        None \<Rightarrow> Some []
      | Some m \<Rightarrow>
          if length (rest m) < length s
          then map_option ((#) m) (exec_all r (endpos m) (rest m))
          else None)"

declare exec_all.simps [simp del]

text \<open>
  \<^verbatim>\<open>s.match(re)\<close> with a global expression: the matched strings, left to right; after an
  empty match the search moves one code unit on.
\<close>

fun match_all :: "rx \<Rightarrow> nat \<Rightarrow> jsstring \<Rightarrow> jsstring list" where
  "match_all r i s =
     (case search r i s of
        None \<Rightarrow> []
      | Some m \<Rightarrow>
          if length (rest m) < length s then whole m # match_all r (endpos m) (rest m)
          else whole m # (case s of [] \<Rightarrow> [] | c # cs \<Rightarrow> match_all r (i + 1) cs))"

declare match_all.simps [simp del]

text \<open>
  \<^verbatim>\<open>s.split(re)\<close> for a separator without capture groups: \<open>acc\<close> is the piece read since
  the last separator. A separator is tried at every index; an empty match directly
  after a separator is passed over.
\<close>

fun split_loop :: "rx \<Rightarrow> nat \<Rightarrow> jsstring \<Rightarrow> jsstring \<Rightarrow> jsstring list" where
  "split_loop r i acc [] = [acc]"
| "split_loop r i acc (c # cs) =
     (case match_at r i (c # cs) of
        None \<Rightarrow> split_loop r (i + 1) (acc @ [c]) cs
      | Some m \<Rightarrow>
          if length (rest m) < length (c # cs) then acc # split_loop r (endpos m) [] (rest m)
          else if acc = [] then split_loop r (i + 1) [c] cs
          else acc # split_loop r (i + 1) [c] cs)"

definition split :: "rx \<Rightarrow> jsstring \<Rightarrow> jsstring list" where
  "split r s =
     (if s = [] then (if match_at r 0 [] = None then [[]] else [])
      else split_loop r 0 [] s)"

text \<open>The least number of code units a match of an expression spans.\<close>

fun minlen :: "rx \<Rightarrow> nat" where
  "minlen Eps = 0"
| "minlen (Cls p) = 1"
| "minlen (Cat a b) = minlen a + minlen b"
| "minlen (Alt a b) = min (minlen a) (minlen b)"
| "minlen (Opt a) = 0"
| "minlen (Rep p lo hi) = lo"
| "minlen (Lazy p) = 0"
| "minlen (Grp a) = minlen a"
| "minlen Bol = 0"
| "minlen Eol = 0"

subsection \<open>Character classes and literals\<close>

text \<open>
  \<^verbatim>\<open>\s\<close>, and the characters \<^verbatim>\<open>trim\<close> removes: tab, line feed, vertical tab, form feed,
  carriage return, space, no-break space, U+1680, U+2000 to U+200A, the line and
  paragraph separators, U+202F, U+205F, U+3000 and the byte order mark.
\<close>

definition is_ws :: "nat \<Rightarrow> bool" where
  "is_ws c \<longleftrightarrow>
     c \<in> {9, 10, 11, 12, 13, 32, 160, 5760, 8232, 8233, 8239, 8287, 12288, 65279}
     \<or> (8192 \<le> c \<and> c \<le> 8202)"

definition is_digit :: "nat \<Rightarrow> bool" where
  "is_digit c \<longleftrightarrow> 48 \<le> c \<and> c \<le> 57"

definition is_alpha :: "nat \<Rightarrow> bool" where
  "is_alpha c \<longleftrightarrow> (65 \<le> c \<and> c \<le> 90) \<or> (97 \<le> c \<and> c \<le> 122)"

definition any_char :: "nat \<Rightarrow> bool" where
  "any_char c = True"

text \<open>\<^verbatim>\<open>[A-Za-z0-9+/=\r\n]\<close> and \<^verbatim>\<open>[A-Za-z0-9+/=]\<close>.\<close>

definition b64_class :: "nat \<Rightarrow> bool" where
  "b64_class c \<longleftrightarrow> is_alpha c \<or> is_digit c \<or> c \<in> {43, 47, 61, 13, 10}"

definition b64_strict :: "nat \<Rightarrow> bool" where
  "b64_strict c \<longleftrightarrow> is_alpha c \<or> is_digit c \<or> c \<in> {43, 47, 61}"

text \<open>\<^verbatim>\<open>[^\s'"]\<close>.\<close>

definition url_char :: "nat \<Rightarrow> bool" where
  "url_char c \<longleftrightarrow> \<not> (is_ws c \<or> c = 39 \<or> c = 34)"

text \<open>
  Under the \<^verbatim>\<open>i\<close> flag two code units match when their canonical forms agree. For an
  ASCII pattern character that is: the input is the same letter in either case, since
  no code unit from 128 on is canonicalised to an ASCII one.
\<close>

definition upper :: "nat \<Rightarrow> nat" where
  "upper c = (if 97 \<le> c \<and> c \<le> 122 then c - 32 else c)"

definition chr :: "char \<Rightarrow> rx" where
  "chr x = Cls (\<lambda>c. c = of_char x)"

definition chr_i :: "char \<Rightarrow> rx" where
  "chr_i x = Cls (\<lambda>c. upper c = upper (of_char x))"

fun lit :: "string \<Rightarrow> rx" where
  "lit [] = Eps"
| "lit [x] = chr x"
| "lit (x # xs) = Cat (chr x) (lit xs)"

fun lit_i :: "string \<Rightarrow> rx" where
  "lit_i [] = Eps"
| "lit_i [x] = chr_i x"
| "lit_i (x # xs) = Cat (chr_i x) (lit_i xs)"

subsection \<open>String operations\<close>

text \<open>\<^verbatim>\<open>s.replace(/\s+/g, '')\<close>, \<^verbatim>\<open>s.trim()\<close>, \<^verbatim>\<open>s.startsWith(p)\<close> and \<^verbatim>\<open>xs.join(sep)\<close>.\<close>

definition strip_ws :: "jsstring \<Rightarrow> jsstring" where
  "strip_ws s = filter (\<lambda>c. \<not> is_ws c) s"

definition trim :: "jsstring \<Rightarrow> jsstring" where
  "trim s = rev (dropWhile is_ws (rev (dropWhile is_ws s)))"

definition startsWith :: "jsstring \<Rightarrow> jsstring \<Rightarrow> bool" where
  "startsWith s p = (take (length p) s = p)"

fun join :: "jsstring \<Rightarrow> jsstring list \<Rightarrow> jsstring" where
  "join sep [] = []"
| "join sep [x] = x"
| "join sep (x # xs) = x @ sep @ join sep xs"

subsection \<open>The expressions of the program\<close>

text \<open>\<^verbatim>\<open>/\.pdf(\?|$)/i\<close>, the test of a link's \<^verbatim>\<open>href\<close>.\<close>

definition doc_ext_re :: rx where
  "doc_ext_re = Cat (lit_i ''.pdf'') (Alt (chr CHR ''?'') Eol)"

text \<open>\<^verbatim>\<open>/\.pdf/i\<close>, the test of a \<^verbatim>\<open>url\<close> or \<^verbatim>\<open>file\<close> field.\<close>

definition pdf_re :: rx where
  "pdf_re = lit_i ''.pdf''"

text \<open>\<^verbatim>\<open>/https?:\/\/[^\s'"]+\.pdf[^\s'"]*/i\<close>\<close>

definition pdf_url_re :: rx where
  "pdf_url_re =
     Cat (lit_i ''http'') (Cat (Opt (chr_i CHR ''s'')) (Cat (lit ''://'')
       (Cat (Rep url_char 1 None) (Cat (lit_i ''.pdf'') (Rep url_char 0 None)))))"

text \<open>\<^verbatim>\<open>/data:application\/pdf;base64,([A-Za-z0-9+/=\r\n]+)/i\<close>\<close>

definition data_re :: rx where
  "data_re = Cat (lit_i ''data:application/pdf;base64,'') (Grp (Rep b64_class 1 None))"

text \<open>\<^verbatim>\<open>/([A-Za-z0-9+/=\r\n]{200,})/g\<close> and \<^verbatim>\<open>/^[A-Za-z0-9+/=]+$/\<close>\<close>

definition blob_re :: rx where
  "blob_re = Grp (Rep b64_class 200 None)"

definition b64_only_re :: rx where
  "b64_only_re = Cat Bol (Cat (Rep b64_strict 1 None) Eol)"

text \<open>\<^verbatim>\<open>/\{[\s\S]*\}/\<close>\<close>

definition brace_re :: rx where
  "brace_re = Cat (chr CHR ''{'') (Cat (Rep any_char 0 None) (chr CHR ''}''))"

text \<open>\<^verbatim>\<open>/atob\(\s*(`[\s\S]*?`|"[\s\S]*?"|'[\s\S]*?')\s*\)/g\<close>\<close>

definition atob_re :: rx where
  "atob_re =
     Cat (lit ''atob('') (Cat (Rep is_ws 0 None)
       (Cat (Grp (Alt (Cat (chr (CHR 0x60)) (Cat (Lazy any_char) (chr (CHR 0x60))))
                 (Alt (Cat (chr (CHR 0x22)) (Cat (Lazy any_char) (chr (CHR 0x22))))
                      (Cat (chr (CHR 0x27)) (Cat (Lazy any_char) (chr (CHR 0x27)))))))
         (Cat (Rep is_ws 0 None) (chr CHR '')''))))"

text \<open>\<^verbatim>\<open>/\r?\n/\<close>, \<^verbatim>\<open>/\s{2,}/\<close>, \<^verbatim>\<open>/value/i\<close> and \<^verbatim>\<open>/^[A-Za-z\s\-]+$/\<close>\<close>

definition newline_re :: rx where
  "newline_re = Cat (Opt (Cls (\<lambda>c. c = 13))) (Cls (\<lambda>c. c = 10))"

definition gap_re :: rx where
  "gap_re = Rep is_ws 2 None"

definition value_re :: rx where
  "value_re = lit_i ''value''"

definition prose_re :: rx where
  "prose_re = Cat Bol (Cat (Rep (\<lambda>c. is_alpha c \<or> is_ws c \<or> c = 45) 1 None) Eol)"

text \<open>\<^verbatim>\<open>/-?\d+(\.\d+)?/\<close> and \<^verbatim>\<open>/-?\d{1,3}(?:[,.\d]*\d)?/g\<close>\<close>

definition cell_number_re :: rx where
  "cell_number_re =
     Cat (Opt (chr CHR ''-'')) (Cat (Rep is_digit 1 None)
       (Opt (Grp (Cat (chr CHR ''.'') (Rep is_digit 1 None)))))"

definition token_re :: rx where
  "token_re =
     Cat (Opt (chr CHR ''-'')) (Cat (Rep is_digit 1 (Some 3))
       (Opt (Cat (Rep (\<lambda>c. c = 44 \<or> c = 46 \<or> is_digit c) 0 None) (Cls is_digit))))"

section \<open>The webhook's synchronous part\<close>

text \<open>
  \<^verbatim>\<open>
  function validatePayload(body) {
    if (!body || typeof body !== 'object') return false;
    if (!body.email || !body.secret || !body.url) return false;
    return true;
  }
  \<close>
\<close>

definition validatePayload :: "jsval \<Rightarrow> bool" where
  "validatePayload body =
     (if \<not> truthy body \<or> \<not> typeof_object body then False
      else if \<not> truthy (getprop body (js ''email'')) \<or> \<not> truthy (getprop body (js ''secret''))
              \<or> \<not> truthy (getprop body (js ''url'')) then False
      else True)"

text \<open>
  \<^verbatim>\<open>const APP_SECRET = process.env.APP_SECRET || 'replace_me_secret';\<close>
  The environment variable is absent or a string.
\<close>

definition APP_SECRET :: "jsstring option \<Rightarrow> jsstring" where
  "APP_SECRET envvar =
     (case envvar of
        None \<Rightarrow> js ''replace_me_secret''
      | Some s \<Rightarrow> if s \<noteq> [] then s else js ''replace_me_secret'')"

text \<open>
  What the handler of \<^verbatim>\<open>POST /webhook\<close> does before its background job runs, as the
  sequence of its observable events: it sends one response, and only after a 200 does
  it start the job.
  \<^verbatim>\<open>
  const payload = req.body;
  if (!validatePayload(payload)) return res.status(400).json({...});
  if (payload.secret !== APP_SECRET) return res.status(403).json({...});
  res.status(200).json({ accepted: true });
  (async () => { ... })();
  \<close>
\<close>

datatype event = Respond nat | StartJob

definition webhook :: "jsstring option \<Rightarrow> jsval \<Rightarrow> event list" where
  "webhook envvar payload =
     (if \<not> validatePayload payload then [Respond 400]
      else if getprop payload (js ''secret'') \<noteq> JStr (APP_SECRET envvar) then [Respond 403]
      else [Respond 200, StartJob])"

text \<open>A field is present when the body is an object with an own property of that name.\<close>

fun present :: "jsval \<Rightarrow> jsstring \<Rightarrow> bool" where
  "present (JObj kvs) k = (map_of kvs k \<noteq> None)"
| "present _ k = False"

section \<open>The reference resolver\<close>

text \<open>
  What the job reads from the page: the anchors with an \<^verbatim>\<open>href\<close> in document order, as
  pairs of text and resolved \<^verbatim>\<open>href\<close>; \<^verbatim>\<open>document.body.innerText\<close>; the text of the
  scripts without a \<^verbatim>\<open>src\<close>; the \<^verbatim>\<open>src\<close> attributes of the other scripts; and the URL of
  the page, \<^verbatim>\<open>payload.url\<close>.
\<close>

record artifacts =
  links :: "(jsstring \<times> jsstring) list"
  bodyText :: jsstring
  inlineScripts :: "jsstring list"
  externalScriptSources :: "jsstring list"
  baseUrl :: jsstring

text \<open>
  What the job calls outside the program, as parameters:
  \<^item> \<open>base64\<close> is \<^verbatim>\<open>Buffer.from(s, 'base64')\<close>, which returns bytes for every string;
  \<^item> \<open>utf8\<close> is \<^verbatim>\<open>buf.toString('utf8')\<close>;
  \<^item> \<open>jsonParse\<close> is \<^verbatim>\<open>JSON.parse\<close>, with \<open>None\<close> for a thrown SyntaxError;
  \<^item> \<open>resolveUrl src base\<close> is \<^verbatim>\<open>new URL(src, base).href\<close>, with \<open>None\<close> when it throws;
  \<^item> \<open>fetchText\<close> is \<^verbatim>\<open>fetch(url, { timeout: 20000 })\<close> followed by \<^verbatim>\<open>resp.text()\<close>: the
    body when the response is \<^verbatim>\<open>ok\<close>, and \<open>None\<close> for any other status or an exception;
  \<^item> \<open>tempFile prefix\<close> is \<^verbatim>\<open>path.join(TEMP_DIR, prefix + Date.now() + '.pdf')\<close>.
  Writing a file is taken to succeed.
\<close>

record env =
  base64 :: "jsstring \<Rightarrow> nat list"
  utf8 :: "nat list \<Rightarrow> jsstring"
  jsonParse :: "jsstring \<Rightarrow> jsval option"
  resolveUrl :: "jsstring \<Rightarrow> jsstring \<Rightarrow> jsstring option"
  fetchText :: "jsstring \<Rightarrow> jsstring option"
  tempFile :: "jsstring \<Rightarrow> jsstring"

text \<open>
  The state of the job while it looks for the document: the variable \<^verbatim>\<open>pdfUrl\<close>; the
  PDF files written so far, the newest first; the URLs fetched; the strings handed to
  the base64 decoder; and \<^verbatim>\<open>combinedText\<close> once it is built. A URL found is held
  in \<^verbatim>\<open>pdfUrl\<close> as it is; bytes found are written to a file and \<^verbatim>\<open>pdfUrl\<close> becomes
  \<^verbatim>\<open>'file://'\<close> followed by the path of the file. Files written for debugging, which
  nothing reads, and the search for the submission URL, which never changes \<^verbatim>\<open>pdfUrl\<close>,
  are left out.
\<close>

record job =
  pdfUrl :: jsval
  files :: "(jsstring \<times> nat list) list"
  fetched :: "jsstring list"
  decoded :: "jsstring list"
  combinedText :: "jsstring option"

text \<open>
  Step 3 of the job reads the bytes back when \<^verbatim>\<open>pdfUrl\<close> names a local file:
  \<^verbatim>\<open>
  if (pdfUrl.startsWith('file://')) {
    const localPath = pdfUrl.replace('file://', '');
    pdfBuffer = fs.readFileSync(localPath);
  \<close>
  \<open>inlineBytes\<close> is that buffer, for a file the job wrote.
\<close>

definition inlineBytes :: "job \<Rightarrow> nat list option" where
  "inlineBytes st =
     (case pdfUrl st of
        JStr u \<Rightarrow> if startsWith u (js ''file://'') then map_of (files st) (drop 7 u) else None
      | _ \<Rightarrow> None)"

text \<open>\<^verbatim>\<open>buf.slice(0,4).toString() === '%PDF'\<close>: the first four bytes are 37, 80, 68 and 70.\<close>

definition is_pdf :: "nat list \<Rightarrow> bool" where
  "is_pdf buf \<longleftrightarrow> take 4 buf = [37, 80, 68, 70]"

subsection \<open>Strategy 1: the direct scan\<close>

text \<open>
  \<^verbatim>\<open>
  const pdfLink = Array.from(document.querySelectorAll('a[href]'))
                    .find(a => /\.pdf(\?|$)/i.test(a.href));
  if (pdfLink) return pdfLink.href;
  const match = document.body.innerText.match(/https?:\/\/[^\s'"]+\.pdf[^\s'"]*/i);
  if (match) return match[0];
  return null;
  \<close>
\<close>

definition direct_scan :: "artifacts \<Rightarrow> jsval" where
  "direct_scan a =
     (case find (\<lambda>l. test doc_ext_re (snd l)) (links a) of
        Some pdfLink \<Rightarrow> JStr (snd pdfLink)
      | None \<Rightarrow>
          (case search pdf_url_re 0 (bodyText a) of
             Some m \<Rightarrow> JStr (whole m)
           | None \<Rightarrow> JNull))"

subsection \<open>Strategy 2: the text of the scripts\<close>

text \<open>
  \<^verbatim>\<open>
  let combinedText = inlineScripts.join('\n\n');
  for (const src of scriptSrcs) {
    try {
      const resolved = new URL(src, payload.url).href;
      const resp = await fetch(resolved, { timeout: 20000 });
      if (resp.ok) { const t = await resp.text(); combinedText += '\n\n' + t; }
    } catch (e) { ... }
  }
  combinedText += '\n\n' + bodyText;
  \<close>
  \<^verbatim>\<open>scriptSrcs\<close> holds the non-empty \<^verbatim>\<open>src\<close> attributes.
\<close>

fun fetch_scripts ::
  "env \<Rightarrow> jsstring \<Rightarrow> jsstring list \<Rightarrow> jsstring \<times> jsstring list \<Rightarrow> jsstring \<times> jsstring list" where
  "fetch_scripts e base [] (txt, urls) = (txt, urls)"
| "fetch_scripts e base (src # srcs) (txt, urls) =
     (case resolveUrl e src base of
        None \<Rightarrow> fetch_scripts e base srcs (txt, urls)
      | Some resolved \<Rightarrow>
          (case fetchText e resolved of
             Some t \<Rightarrow> fetch_scripts e base srcs (txt @ [10, 10] @ t, urls @ [resolved])
           | None \<Rightarrow> fetch_scripts e base srcs (txt, urls @ [resolved])))"

definition harvest :: "env \<Rightarrow> artifacts \<Rightarrow> jsstring \<times> jsstring list" where
  "harvest e a =
     (let (txt, urls) =
            fetch_scripts e (baseUrl a) (filter (\<lambda>src. src \<noteq> []) (externalScriptSources a))
              (join [10, 10] (inlineScripts a), [])
      in (txt @ [10, 10] @ bodyText a, urls))"

text \<open>
  \<^verbatim>\<open>
  function findDataPdfInText(txt) {
    const m = txt.match(/data:application\/pdf;base64,([A-Za-z0-9+/=\r\n]+)/i);
    if (m && m[1]) return m[1].replace(/\s+/g, '');
    return null;
  }
  \<close>
\<close>

definition findDataPdfInText :: "jsstring \<Rightarrow> jsstring option" where
  "findDataPdfInText txt =
     (case search data_re 0 txt of
        None \<Rightarrow> None
      | Some m \<Rightarrow>
          (case groups m of
             [] \<Rightarrow> None
           | m1 # _ \<Rightarrow> if m1 \<noteq> [] then Some (strip_ws m1) else None))"

text \<open>
  \<^verbatim>\<open>
  const dataPdfB64 = findDataPdfInText(combinedText);
  if (dataPdfB64) {
    const pdfBuffer = Buffer.from(dataPdfB64, 'base64');
    const pdfFilename = path.join(TEMP_DIR, `embedded_${Date.now()}.pdf`);
    fs.writeFileSync(pdfFilename, pdfBuffer);
    pdfUrl = 'file://' + pdfFilename;
  }
  \<close>
\<close>

definition store_pdf :: "env \<Rightarrow> jsstring \<Rightarrow> nat list \<Rightarrow> job \<Rightarrow> job" where
  "store_pdf e prefix buf st =
     st\<lparr>pdfUrl := JStr (js ''file://'' @ tempFile e prefix),
        files := (tempFile e prefix, buf) # files st\<rparr>"

definition scan_data :: "env \<Rightarrow> jsstring \<Rightarrow> job \<Rightarrow> job" where
  "scan_data e txt st =
     (case findDataPdfInText txt of
        None \<Rightarrow> st
      | Some dataPdfB64 \<Rightarrow>
          if dataPdfB64 \<noteq> [] then
            store_pdf e (js ''embedded_'') (base64 e dataPdfB64)
              (st\<lparr>decoded := decoded st @ [dataPdfB64]\<rparr>)
          else st)"

text \<open>
  \<^verbatim>\<open>
  function extractJsonBlock(txt) {
    const m = txt.match(/\{[\s\S]*\}/);
    if (!m) return null;
    try { return JSON.parse(m[0]); } catch (e) { return null; }
  }
  \<close>
\<close>

definition extractJsonBlock :: "env \<Rightarrow> jsstring \<Rightarrow> jsval" where
  "extractJsonBlock e txt =
     (case search brace_re 0 txt of
        None \<Rightarrow> JNull
      | Some m \<Rightarrow> (case jsonParse e (whole m) of None \<Rightarrow> JNull | Some v \<Rightarrow> v))"

text \<open>
  \<^verbatim>\<open>/\.pdf/i.test(v)\<close> of a value that is not a string converts the value to a string
  first. The string of a number, of a boolean, of null and of an object without a
  \<^verbatim>\<open>toString\<close> property of its own has no \<^verbatim>\<open>.pdf\<close>; an object with a \<^verbatim>\<open>toString\<close>
  property, which JSON cannot make callable, throws a TypeError (\<open>None\<close>); an array is
  the strings of its elements joined by commas, with the empty string for null, so it
  has \<^verbatim>\<open>.pdf\<close> when one of the elements has.
\<close>

fun pdf_test :: "jsval \<Rightarrow> bool option"
  and pdf_test_list :: "jsval list \<Rightarrow> bool option" where
  "pdf_test (JStr s) = Some (test pdf_re s)"
| "pdf_test (JArr xs) = pdf_test_list xs"
| "pdf_test (JObj kvs) = (if map_of kvs (js ''toString'') = None then Some False else None)"
| "pdf_test JUndef = Some False"
| "pdf_test JNull = Some False"
| "pdf_test (JBool b) = Some False"
| "pdf_test (JNum n) = Some False"
| "pdf_test_list [] = Some False"
| "pdf_test_list (x # xs) =
     (case pdf_test x of
        None \<Rightarrow> None
      | Some b \<Rightarrow> (case pdf_test_list xs of None \<Rightarrow> None | Some b' \<Rightarrow> Some (b \<or> b')))"

text \<open>\<^verbatim>\<open>v && /\.pdf/i.test(v)\<close>\<close>

definition field_hit :: "jsval \<Rightarrow> bool option" where
  "field_hit v = (if truthy v then pdf_test v else Some False)"

text \<open>
  What one literal of a decode call yields: bytes of a PDF, a value for \<^verbatim>\<open>pdfUrl\<close>, or
  nothing, in which case the loop goes on to the next literal. An exception in the
  body of the loop is caught there and yields nothing.
  \<^verbatim>\<open>
  const candidate = b64.replace(/\s+/g, '');
  try {
    const buf = Buffer.from(candidate, 'base64');
    if (buf.slice(0,4).toString() === '%PDF') {
      ... fs.writeFileSync(pdfFilename, buf); pdfUrl = 'file://' + pdfFilename; break;
    } else {
      const txt = buf.toString('utf8');
      const pdfMatch = txt.match(/https?:\/\/[^\s'"]+\.pdf[^\s'"]*/i);
      if (pdfMatch) { pdfUrl = pdfMatch[0]; break; }
      const parsed = extractJsonBlock(txt);
      if (parsed) {
        if (parsed.url && /\.pdf/i.test(parsed.url)) { pdfUrl = parsed.url; break; }
        if (parsed.file && /\.pdf/i.test(parsed.file)) { pdfUrl = parsed.file; break; }
      }
    }
  } catch (e) { }
  \<close>
\<close>

datatype probe = PdfBytes "nat list" | Url jsval | Nothing

definition probe_literal :: "env \<Rightarrow> jsstring \<Rightarrow> probe" where
  "probe_literal e candidate =
     (let buf = base64 e candidate
      in if is_pdf buf then PdfBytes buf
         else
           let txt = utf8 e buf
           in case search pdf_url_re 0 txt of
                Some pdfMatch \<Rightarrow> Url (JStr (whole pdfMatch))
              | None \<Rightarrow>
                  let parsed = extractJsonBlock e txt
                  in if truthy parsed then
                       (case field_hit (getprop parsed (js ''url'')) of
                          None \<Rightarrow> Nothing
                        | Some True \<Rightarrow> Url (getprop parsed (js ''url''))
                        | Some False \<Rightarrow>
                            (case field_hit (getprop parsed (js ''file'')) of
                               Some True \<Rightarrow> Url (getprop parsed (js ''file''))
                             | _ \<Rightarrow> Nothing))
                     else Nothing)"

fun atob_loop :: "env \<Rightarrow> jsstring list \<Rightarrow> job \<Rightarrow> job" where
  "atob_loop e [] st = st"
| "atob_loop e (b64 # later) st =
     (let candidate = strip_ws b64;
          st' = st\<lparr>decoded := decoded st @ [candidate]\<rparr>
      in case probe_literal e candidate of
           PdfBytes buf \<Rightarrow> store_pdf e (js ''decoded_atob_'') buf st'
         | Url v \<Rightarrow> st'\<lparr>pdfUrl := v\<rparr>
         | Nothing \<Rightarrow> atob_loop e later st')"

text \<open>
  The literals of the decode calls, in the order of the text:
  \<^verbatim>\<open>
  while ((m = atobRe.exec(combinedText)) !== null) {
    let inner = m[1];
    if ((inner.startsWith('`') && inner.endsWith('`')) || ... ) inner = inner.slice(1, -1);
    atobMatches.push(inner);
  }
  \<close>
\<close>

definition unquote :: "jsstring \<Rightarrow> jsstring" where
  "unquote inner =
     (if inner \<noteq> [] \<and> hd inner = last inner \<and> hd inner \<in> {96, 34, 39}
      then butlast (tl inner) else inner)"

definition atobMatches :: "jsstring \<Rightarrow> jsstring list option" where
  "atobMatches txt =
     map_option (map (\<lambda>m. unquote (case groups m of [] \<Rightarrow> [] | m1 # _ \<Rightarrow> m1)))
       (exec_all atob_re 0 txt)"

definition scan_atob :: "env \<Rightarrow> jsstring \<Rightarrow> job \<Rightarrow> job option" where
  "scan_atob e txt st =
     (if truthy (pdfUrl st) then Some st
      else map_option (\<lambda>lits. atob_loop e lits st) (atobMatches txt))"

text \<open>
  \<^verbatim>\<open>
  function findLongBase64Blob(txt, minLen = 200) {
    const re = /([A-Za-z0-9+/=\r\n]{200,})/g;
    let match;
    while ((match = re.exec(txt)) !== null) {
      const candidate = match[1].replace(/\s+/g, '');
      if (candidate.length >= minLen && /^[A-Za-z0-9+/=]+$/.test(candidate)) return candidate;
    }
    return null;
  }
  \<close>
  \<open>blob_candidate\<close> is \<^verbatim>\<open>match[1].replace(/\s+/g, '')\<close>, and \<open>blob_loop\<close> the loop from
  \<^verbatim>\<open>lastIndex\<close> \<open>i\<close> on; the outer \<open>None\<close> is a loop that does not end, \<open>Some None\<close> the
  result \<^verbatim>\<open>null\<close>.
\<close>

definition blob_candidate :: "rmatch_result \<Rightarrow> jsstring" where
  "blob_candidate m = strip_ws (case groups m of [] \<Rightarrow> [] | m1 # _ \<Rightarrow> m1)"

fun blob_loop :: "nat \<Rightarrow> nat \<Rightarrow> jsstring \<Rightarrow> jsstring option option" where
  "blob_loop minLen i s =
     (case search blob_re i s of
        None \<Rightarrow> Some None
      | Some m \<Rightarrow>
          let candidate = blob_candidate m
          in if minLen \<le> length candidate \<and> test b64_only_re candidate then Some (Some candidate)
             else if length (rest m) < length s then blob_loop minLen (endpos m) (rest m)
             else None)"

declare blob_loop.simps [simp del]

definition findLongBase64Blob :: "jsstring \<Rightarrow> nat \<Rightarrow> jsstring option option" where
  "findLongBase64Blob txt minLen = blob_loop minLen 0 txt"

text \<open>
  \<^verbatim>\<open>
  if (!pdfUrl) {
    const longB64 = findLongBase64Blob(combinedText, 300);
    if (longB64) {
      try {
        const buf = Buffer.from(longB64, 'base64');
        if (buf.slice(0,4).toString() === '%PDF') { ... pdfUrl = 'file://' + pdfFilename; }
        else { console.log('... did not start with %PDF; skipping.'); }
      } catch (e) { ... }
    }
  }
  \<close>
\<close>

definition scan_blob :: "env \<Rightarrow> jsstring \<Rightarrow> job \<Rightarrow> job option" where
  "scan_blob e txt st =
     (if truthy (pdfUrl st) then Some st
      else
        (case findLongBase64Blob txt 300 of
           None \<Rightarrow> None
         | Some None \<Rightarrow> Some st
         | Some (Some longB64) \<Rightarrow>
             if longB64 \<noteq> [] then
               (let buf = base64 e longB64;
                    st' = st\<lparr>decoded := decoded st @ [longB64]\<rparr>
                in if is_pdf buf then Some (store_pdf e (js ''long_b64_'') buf st') else Some st')
             else Some st))"

text \<open>
  \<^verbatim>\<open>
  if (!pdfUrl) {
    const parsed = extractJsonBlock(combinedText);
    if (parsed) {
      if (parsed.url && typeof parsed.url === 'string' && /\.pdf/i.test(parsed.url)) {
        pdfUrl = parsed.url;
      } else if (parsed.file && typeof parsed.file === 'string' && /\.pdf/i.test(parsed.file)) {
        pdfUrl = parsed.file;
      }
      ...
    }
  }
  \<close>
\<close>

definition pdf_string :: "jsval \<Rightarrow> bool" where
  "pdf_string v = (case v of JStr s \<Rightarrow> s \<noteq> [] \<and> test pdf_re s | _ \<Rightarrow> False)"

definition scan_json :: "env \<Rightarrow> jsstring \<Rightarrow> job \<Rightarrow> job" where
  "scan_json e txt st =
     (if truthy (pdfUrl st) then st
      else
        let parsed = extractJsonBlock e txt
        in if truthy parsed then
             (if pdf_string (getprop parsed (js ''url''))
              then st\<lparr>pdfUrl := getprop parsed (js ''url'')\<rparr>
              else if pdf_string (getprop parsed (js ''file''))
              then st\<lparr>pdfUrl := getprop parsed (js ''file'')\<rparr>
              else st)
           else st)"

subsection \<open>The strategies in order\<close>

text \<open>
  The job from the direct scan to the last scan of the text: strategy 2 is entered when
  \<^verbatim>\<open>!pdfUrl\<close> holds after strategy 1, and each scan after the first is entered when it
  still holds. \<open>None\<close> is a job that does not return from one of its loops.
\<close>

definition resolve :: "env \<Rightarrow> artifacts \<Rightarrow> job option" where
  "resolve e a =
     (let st = \<lparr>pdfUrl = direct_scan a, files = [], fetched = [], decoded = [],
                 combinedText = None\<rparr>
      in if truthy (pdfUrl st) then Some st
         else
           let (txt, urls) = harvest e a;
               st1 = scan_data e txt (st\<lparr>fetched := urls, combinedText := Some txt\<rparr>)
           in case scan_atob e txt st1 of
                None \<Rightarrow> None
              | Some st2 \<Rightarrow> map_option (scan_json e txt) (scan_blob e txt st2))"

section \<open>Numbers\<close>

text \<open>
  Rounding of a rational number to the nearest double, ties to the even significand:
  53 significant bits, the least exponent \<open>-1022\<close> (below it the spacing of the
  subnormal numbers), and an infinity from \<open>2^1024\<close> on.
\<close>

fun ilog2 :: "nat \<Rightarrow> nat" where
  "ilog2 n = (if n < 2 then 0 else Suc (ilog2 (n div 2)))"

declare ilog2.simps [simp del]

definition pow2 :: "int \<Rightarrow> rat" where
  "pow2 e = (if 0 \<le> e then 2 ^ nat e else 1 / 2 ^ nat (- e))"

definition pow10 :: "int \<Rightarrow> rat" where
  "pow10 e = (if 0 \<le> e then 10 ^ nat e else 1 / 10 ^ nat (- e))"

text \<open>\<open>exponent_of a\<close> is the integer \<open>e\<close> with \<open>2^e \<le> a < 2^(e+1)\<close>, for positive \<open>a\<close>.\<close>

definition exponent_of :: "rat \<Rightarrow> int" where
  "exponent_of a =
     (if 1 \<le> a then int (ilog2 (nat \<lfloor>a\<rfloor>))
      else let m = nat \<lceil>1 / a\<rceil> in - int (if m \<le> 1 then 0 else Suc (ilog2 (m - 1))))"

definition round_half_even :: "rat \<Rightarrow> int" where
  "round_half_even x =
     (let f = \<lfloor>x\<rfloor>; d = x - of_int f
      in if d < 1 / 2 then f else if 1 / 2 < d then f + 1 else if even f then f else f + 1)"

definition rnd :: "rat \<Rightarrow> number" where
  "rnd q =
     (if q = 0 then Fin 0
      else let a = \<bar>q\<bar>;
               u = pow2 (max (exponent_of a) (- 1022) - 52);
               r = of_int (round_half_even (a / u)) * u
           in if pow2 1024 \<le> r then (if 0 < q then PInf else NInf)
              else Fin (if 0 < q then r else - r))"

text \<open>\<^verbatim>\<open>a + b\<close> on numbers.\<close>

fun fadd :: "number \<Rightarrow> number \<Rightarrow> number" where
  "fadd (Fin a) (Fin b) = rnd (a + b)"
| "fadd NaN _ = NaN"
| "fadd _ NaN = NaN"
| "fadd PInf NInf = NaN"
| "fadd NInf PInf = NaN"
| "fadd PInf _ = PInf"
| "fadd _ PInf = PInf"
| "fadd NInf _ = NInf"
| "fadd _ NInf = NInf"

text \<open>
  \<^verbatim>\<open>parseFloat(str)\<close>: leading white space is skipped, and the longest prefix that is a
  decimal literal (a sign, then \<^verbatim>\<open>Infinity\<close> or digits with an optional fraction and an
  optional exponent) gives the value; without such a prefix the result is NaN.
\<close>

definition dec :: "jsstring \<Rightarrow> nat" where
  "dec ds = foldl (\<lambda>a c. 10 * a + (c - 48)) 0 ds"

definition parse_exponent :: "jsstring \<Rightarrow> int" where
  "parse_exponent s =
     (case s of
        [] \<Rightarrow> 0
      | e # r \<Rightarrow>
          if e = 101 \<or> e = 69 then
            (let neg = (case r of [] \<Rightarrow> False | c # _ \<Rightarrow> c = 45);
                 r' = (case r of [] \<Rightarrow> [] | c # r'' \<Rightarrow> if c = 45 \<or> c = 43 then r'' else r);
                 ds = takeWhile is_digit r'
             in if ds = [] then 0 else if neg then - int (dec ds) else int (dec ds))
          else 0)"

definition parseFloat :: "jsstring \<Rightarrow> number" where
  "parseFloat str =
     (let t = dropWhile is_ws str;
          neg = (case t of [] \<Rightarrow> False | c # _ \<Rightarrow> c = 45);
          u = (case t of [] \<Rightarrow> [] | c # r \<Rightarrow> if c = 45 \<or> c = 43 then r else t)
      in if startsWith u (js ''Infinity'') then (if neg then NInf else PInf)
         else
           let ip = takeWhile is_digit u;
               r1 = dropWhile is_digit u;
               fp = (case r1 of [] \<Rightarrow> [] | c # r \<Rightarrow> if c = 46 then takeWhile is_digit r else []);
               r2 = (case r1 of [] \<Rightarrow> []
                     | c # r \<Rightarrow> if c = 46 \<and> (ip \<noteq> [] \<or> fp \<noteq> []) then dropWhile is_digit r else r1)
           in if ip = [] \<and> fp = [] then NaN
              else
                let m = of_nat (dec (ip @ fp)) / 10 ^ length fp * pow10 (parse_exponent r2)
                in rnd (if neg then - m else m))"

text \<open>
  \<^verbatim>\<open>const answer = (Math.round(sum) === sum) ? Math.round(sum) : parseFloat(sum.toFixed(6));\<close>
  \<^verbatim>\<open>Math.round\<close> returns its argument exactly when that is an integer or infinite, and
  never when it is NaN. \<^verbatim>\<open>toFixed(6)\<close> of a finite number that is not an integer prints
  the nearest multiple of \<open>10^-6\<close>, the one away from zero of two nearest.
\<close>

definition answer :: "number \<Rightarrow> number" where
  "answer acc =
     (case acc of
        Fin x \<Rightarrow>
          if of_int \<lfloor>x\<rfloor> = x then Fin x
          else
            let n = of_int \<lfloor>\<bar>x\<bar> * 10 ^ 6 + 1 / 2\<rfloor> / 10 ^ 6
            in rnd (if x < 0 then - n else n)
      | PInf \<Rightarrow> PInf
      | NInf \<Rightarrow> NInf
      | NaN \<Rightarrow> NaN)"

section \<open>The table summation\<close>

text \<open>
  \<^verbatim>\<open>const lines = page2Text.split(/\r?\n/).map(l => l.trim()).filter(Boolean);\<close>
\<close>

definition table_lines :: "jsstring \<Rightarrow> jsstring list" where
  "table_lines page2Text = filter (\<lambda>l. l \<noteq> []) (map trim (split newline_re page2Text))"

text \<open>
  \<^verbatim>\<open>/value/i.test(line) && line.split(/\s{2,}/).length >= 2\<close>
\<close>

definition is_header :: "jsstring \<Rightarrow> bool" where
  "is_header line \<longleftrightarrow> test value_re line \<and> 2 \<le> length (split gap_re line)"

text \<open>
  \<^verbatim>\<open>
  const headers = line.split(/\s{2,}/).map(h => h.trim().toLowerCase());
  valueColIndex = headers.findIndex(h => h.includes('value'));
  \<close>
  A lower-cased field includes \<^verbatim>\<open>value\<close> exactly when the field has these five letters
  in either case: no character outside ASCII is lower-cased to one of them.
\<close>

fun findIndex :: "('a \<Rightarrow> bool) \<Rightarrow> 'a list \<Rightarrow> int" where
  "findIndex p [] = - 1"
| "findIndex p (x # xs) =
     (if p x then 0 else let i = findIndex p xs in if i < 0 then - 1 else i + 1)"

definition valueColIndex :: "jsstring \<Rightarrow> int" where
  "valueColIndex line = findIndex (test value_re) (map trim (split gap_re line))"

text \<open>
  The end of the table:
  \<^verbatim>\<open>/^[A-Za-z\s\-]+$/.test(dataLine) && dataLine.split(/\s{2,}/).length <= 1\<close>
\<close>

definition table_end :: "jsstring \<Rightarrow> bool" where
  "table_end dataLine \<longleftrightarrow> test prose_re dataLine \<and> length (split gap_re dataLine) \<le> 1"

text \<open>
  The number a cell adds, if any:
  \<^verbatim>\<open>
  const raw = cols[valueColIndex].replace(/[,\u20B9$\u20AC\u00A3]/g, '').trim();
  const m = raw.match(/-?\d+(\.\d+)?/);
  if (m) { const num = parseFloat(m[0]); if (!Number.isNaN(num)) sum += num; }
  \<close>
  The class is written here with escapes; in the source it holds the characters
  themselves: the comma, the rupee sign U+20B9, the dollar sign, the euro sign U+20AC
  and the pound sign U+00A3.
\<close>

definition cell_value :: "jsstring \<Rightarrow> number option" where
  "cell_value cell =
     (let raw = trim (filter (\<lambda>c. c \<notin> {44, 8377, 36, 8364, 163}) cell)
      in case search cell_number_re 0 raw of
           None \<Rightarrow> None
         | Some m \<Rightarrow> let num = parseFloat (whole m) in if num = NaN then None else Some num)"

text \<open>
  One consumed row:
  \<^verbatim>\<open>
  const cols = dataLine.split(/\s{2,}/).map(c => c.trim());
  if (valueColIndex >= 0 && valueColIndex < cols.length) { ... }
  \<close>
\<close>

definition add_row :: "int \<Rightarrow> jsstring \<Rightarrow> number \<Rightarrow> number" where
  "add_row idx dataLine acc =
     (let cols = map trim (split gap_re dataLine)
      in if 0 \<le> idx \<and> idx < int (length cols) then
           (case cell_value (cols ! nat idx) of None \<Rightarrow> acc | Some num \<Rightarrow> fadd acc num)
         else acc)"

text \<open>The inner loop, over the lines after the header, until the table ends.\<close>

fun sum_rows :: "int \<Rightarrow> jsstring list \<Rightarrow> number \<Rightarrow> number" where
  "sum_rows idx [] acc = acc"
| "sum_rows idx (dataLine # ls) acc =
     (if table_end dataLine then acc else sum_rows idx ls (add_row idx dataLine acc))"

text \<open>
  The outer loop: the first header line decides; \<open>None\<close> stands for \<^verbatim>\<open>foundHeader === null\<close>
  after the loop.
\<close>

fun sum_table :: "jsstring list \<Rightarrow> number option" where
  "sum_table [] = None"
| "sum_table (line # ls) =
     (if is_header line then Some (sum_rows (valueColIndex line) ls (Fin 0))
      else sum_table ls)"

text \<open>
  The fallback:
  \<^verbatim>\<open>
  const allNums = page2Text.match(/-?\d{1,3}(?:[,.\d]*\d)?/g) || [];
  sum = 0;
  for (const t of allNums) {
    const cleaned = t.replace(/,/g, '');
    const n = parseFloat(cleaned);
    if (!Number.isNaN(n)) sum += n;
  }
  \<close>
\<close>

definition token_value :: "jsstring \<Rightarrow> number" where
  "token_value t = parseFloat (filter (\<lambda>c. c \<noteq> 44) t)"

definition add_token :: "number \<Rightarrow> jsstring \<Rightarrow> number" where
  "add_token acc t = (let n = token_value t in if n = NaN then acc else fadd acc n)"

definition sum_tokens :: "jsstring \<Rightarrow> number" where
  "sum_tokens page2Text = foldl add_token (Fin 0) (match_all token_re 0 page2Text)"

text \<open>The variable \<^verbatim>\<open>sum\<close> after both parts, and the answer computed from it.\<close>

definition page_sum :: "jsstring \<Rightarrow> number" where
  "page_sum page2Text =
     (case sum_table (table_lines page2Text) of
        Some acc \<Rightarrow> acc
      | None \<Rightarrow> sum_tokens page2Text)"

definition page_answer :: "jsstring \<Rightarrow> number" where
  "page_answer page2Text = answer (page_sum page2Text)"

section \<open>An environment to run the job in\<close>

text \<open>
  The base64 decoder of Node: characters outside the alphabet are skipped, the
  alphabet of URLs is accepted as well, and the first \<^verbatim>\<open>=\<close> ends the input. Four characters
  give three bytes; two or three characters at the end give one or two.
\<close>

definition b64_value :: "nat \<Rightarrow> nat option" where
  "b64_value c =
     (if 65 \<le> c \<and> c \<le> 90 then Some (c - 65)
      else if 97 \<le> c \<and> c \<le> 122 then Some (c - 71)
      else if 48 \<le> c \<and> c \<le> 57 then Some (c + 4)
      else if c = 43 \<or> c = 45 then Some 62
      else if c = 47 \<or> c = 95 then Some 63
      else None)"

fun sextets :: "jsstring \<Rightarrow> nat list" where
  "sextets [] = []"
| "sextets (c # cs) =
     (if c = 61 then []
      else case b64_value c of Some v \<Rightarrow> v # sextets cs | None \<Rightarrow> sextets cs)"

fun b64_bytes :: "nat list \<Rightarrow> nat list" where
  "b64_bytes (a # b # c # d # r) =
     (a * 4 + b div 16) # ((b mod 16) * 16 + c div 4) # ((c mod 4) * 64 + d) # b64_bytes r"
| "b64_bytes [a, b, c] = [a * 4 + b div 16, (b mod 16) * 16 + c div 4]"
| "b64_bytes [a, b] = [a * 4 + b div 16]"
| "b64_bytes _ = []"

definition node_base64 :: "jsstring \<Rightarrow> nat list" where
  "node_base64 s = b64_bytes (sextets s)"

text \<open>The text of bytes that are all ASCII; any other byte is shown as U+FFFD.\<close>

definition ascii_text :: "nat list \<Rightarrow> jsstring" where
  "ascii_text buf = map (\<lambda>b. if b < 128 then b else 65533) buf"

text \<open>
  \<^verbatim>\<open>JSON.parse\<close>: one value between optional white space, and nothing after it. The
  first argument of the parser bounds the number of values and members read; the
  length of the text is enough for every text.
\<close>

definition json_ws :: "nat \<Rightarrow> bool" where
  "json_ws c \<longleftrightarrow> c \<in> {32, 9, 10, 13}"

definition hexval :: "nat \<Rightarrow> nat option" where
  "hexval c =
     (if 48 \<le> c \<and> c \<le> 57 then Some (c - 48)
      else if 97 \<le> c \<and> c \<le> 102 then Some (c - 87)
      else if 65 \<le> c \<and> c \<le> 70 then Some (c - 55)
      else None)"

definition json_escape :: "nat \<Rightarrow> nat option" where
  "json_escape c =
     (if c = 34 \<or> c = 92 \<or> c = 47 then Some c
      else if c = 98 then Some 8
      else if c = 102 then Some 12
      else if c = 110 then Some 10
      else if c = 114 then Some 13
      else if c = 116 then Some 9
      else None)"

text \<open>The characters of a string after its opening quote, and the text after its closing one.\<close>

fun json_string :: "jsstring \<Rightarrow> (jsstring \<times> jsstring) option" where
  "json_string [] = None"
| "json_string (c # cs) =
     (if c = 34 then Some ([], cs)
      else if c = 92 then
        (case cs of
           [] \<Rightarrow> None
         | x # r \<Rightarrow>
             if x = 117 then
               (case map hexval (take 4 r) of
                  [Some h1, Some h2, Some h3, Some h4] \<Rightarrow>
                    map_option (apfst ((#) (((h1 * 16 + h2) * 16 + h3) * 16 + h4)))
                      (json_string (drop 4 r))
                | _ \<Rightarrow> None)
             else
               (case json_escape x of
                  None \<Rightarrow> None
                | Some y \<Rightarrow> map_option (apfst ((#) y)) (json_string r)))
      else if c < 32 then None
      else map_option (apfst ((#) c)) (json_string cs))"

definition json_number :: "jsstring \<Rightarrow> (number \<times> jsstring) option" where
  "json_number s =
     (let neg = (case s of [] \<Rightarrow> False | c # _ \<Rightarrow> c = 45);
          u = (if neg then tl s else s);
          ip = takeWhile is_digit u;
          r1 = dropWhile is_digit u;
          dot = (case r1 of [] \<Rightarrow> False | c # _ \<Rightarrow> c = 46);
          fp = (if dot then takeWhile is_digit (tl r1) else []);
          r2 = (if dot then dropWhile is_digit (tl r1) else r1);
          ex = (case r2 of [] \<Rightarrow> False | c # _ \<Rightarrow> c = 101 \<or> c = 69);
          r3 = (if ex then (case tl r2 of [] \<Rightarrow> [] | c # r \<Rightarrow> if c = 45 \<or> c = 43 then r else c # r)
                else r2);
          ed = (if ex then takeWhile is_digit r3 else []);
          r4 = (if ex then dropWhile is_digit r3 else r2)
      in if ip = [] \<or> (1 < length ip \<and> take 1 ip = [48]) \<or> (dot \<and> fp = []) \<or> (ex \<and> ed = [])
         then None
         else
           let m = of_nat (dec (ip @ fp)) / 10 ^ length fp * pow10 (parse_exponent r2)
           in Some (rnd (if neg then - m else m), r4))"

text \<open>A later member of an object replaces an earlier one of the same name.\<close>

fun put_member :: "jsstring \<Rightarrow> jsval \<Rightarrow> (jsstring \<times> jsval) list \<Rightarrow> (jsstring \<times> jsval) list" where
  "put_member k v [] = [(k, v)]"
| "put_member k v ((k', v') # kvs) =
     (if k' = k then (k, v) # kvs else (k', v') # put_member k v kvs)"

fun json_value :: "nat \<Rightarrow> jsstring \<Rightarrow> (jsval \<times> jsstring) option"
  and json_elements :: "nat \<Rightarrow> jsval list \<Rightarrow> jsstring \<Rightarrow> (jsval \<times> jsstring) option"
  and json_members ::
    "nat \<Rightarrow> (jsstring \<times> jsval) list \<Rightarrow> jsstring \<Rightarrow> (jsval \<times> jsstring) option" where
  "json_value 0 s = None"
| "json_value (Suc n) s =
     (case dropWhile json_ws s of
        [] \<Rightarrow> None
      | c # r \<Rightarrow>
          if c = 123 then
            (if take 1 (dropWhile json_ws r) = [125]
             then Some (JObj [], tl (dropWhile json_ws r))
             else json_members n [] r)
          else if c = 91 then
            (if take 1 (dropWhile json_ws r) = [93]
             then Some (JArr [], tl (dropWhile json_ws r))
             else json_elements n [] r)
          else if c = 34 then map_option (apfst JStr) (json_string r)
          else if startsWith (c # r) (js ''true'') then Some (JBool True, drop 4 (c # r))
          else if startsWith (c # r) (js ''false'') then Some (JBool False, drop 5 (c # r))
          else if startsWith (c # r) (js ''null'') then Some (JNull, drop 4 (c # r))
          else map_option (apfst JNum) (json_number (c # r)))"
| "json_elements 0 vs s = None"
| "json_elements (Suc n) vs s =
     (case json_value n s of
        None \<Rightarrow> None
      | Some (v, r) \<Rightarrow>
          (case dropWhile json_ws r of
             [] \<Rightarrow> None
           | c # r' \<Rightarrow>
               if c = 44 then json_elements n (vs @ [v]) r'
               else if c = 93 then Some (JArr (vs @ [v]), r')
               else None))"
| "json_members 0 kvs s = None"
| "json_members (Suc n) kvs s =
     (case dropWhile json_ws s of
        [] \<Rightarrow> None
      | q # r \<Rightarrow>
          if q \<noteq> 34 then None
          else
            (case json_string r of
               None \<Rightarrow> None
             | Some (k, r1) \<Rightarrow>
                 (case dropWhile json_ws r1 of
                    [] \<Rightarrow> None
                  | colon # r2 \<Rightarrow>
                      if colon \<noteq> 58 then None
                      else
                        (case json_value n r2 of
                           None \<Rightarrow> None
                         | Some (v, r3) \<Rightarrow>
                             (case dropWhile json_ws r3 of
                                [] \<Rightarrow> None
                              | c # r4 \<Rightarrow>
                                  if c = 44 then json_members n (put_member k v kvs) r4
                                  else if c = 125 then Some (JObj (put_member k v kvs), r4)
                                  else None)))))"

definition json_parse :: "jsstring \<Rightarrow> jsval option" where
  "json_parse txt =
     (case json_value (Suc (length txt)) txt of
        None \<Rightarrow> None
      | Some (v, r) \<Rightarrow> if dropWhile json_ws r = [] then Some v else None)"

text \<open>
  The environment of the examples: the decoders above, a web given as a table from
  URLs to the texts served there with status 200, script sources that are absolute
  URLs already, and one name for each kind of temporary file.
\<close>

definition node_env :: "(jsstring \<times> jsstring) list \<Rightarrow> env" where
  "node_env web =
     \<lparr>base64 = node_base64,
      utf8 = ascii_text,
      jsonParse = json_parse,
      resolveUrl = (\<lambda>src base. Some src),
      fetchText = map_of web,
      tempFile = (\<lambda>prefix. js ''/app/tmp_files/'' @ prefix @ js ''1700000000000.pdf'')\<rparr>"

text \<open>A page with nothing on it, to build the pages of the examples from.\<close>

definition blank_page :: artifacts where
  "blank_page =
     \<lparr>links = [], bodyText = [], inlineScripts = [], externalScriptSources = [],
      baseUrl = js ''https://quiz.example/start''\<rparr>"

subsection \<open>The pages of the examples\<close>

text \<open>
  Pages for the examples below: one with three links, of which the second and the third
  point to a document; pages whose only script holds a data URI, decode calls, a long
  run of base64 characters, or blocks in braces.
\<close>

definition linked_page :: artifacts where
  "linked_page = blank_page
     \<lparr>links := [(js ''Rules'', js ''https://h/rules.html''),
                 (js ''Sheet'', js ''https://h/Doc.PDF?dl=1''),
                 (js ''Copy'', js ''https://h/copy.pdf'')],
      externalScriptSources := [js ''https://cdn/x.js'']\<rparr>"

definition starved_page :: artifacts where
  "starved_page = blank_page
     \<lparr>inlineScripts := [js ''u = \"data:application/pdf;base64,'' @ [10] @ js ''\";'']\<rparr>"

definition hello_page :: artifacts where
  "hello_page = blank_page
     \<lparr>inlineScripts := [js ''u = \"data:Application/PDF;base64,SGVs'' @ [10] @ js ''bG8=\";'']\<rparr>"



definition blob_page :: artifacts where
  "blob_page = blank_page\<lparr>inlineScripts := [replicate 300 65]\<rparr>"

definition two_blocks_page :: artifacts where
  "two_blocks_page = blank_page
     \<lparr>inlineScripts := [js ''var cfg = {\"url\":\"doc.pdf\"}; var o = {};'']\<rparr>"

definition one_block_page :: artifacts where
  "one_block_page = blank_page
     \<lparr>inlineScripts := [js ''var cfg = {\"url\":\"doc.pdf\"};'']\<rparr>"

text \<open>
  The page texts of the examples: a table of two rows that ends with a line of prose (the
  lines are joined by line feeds), three texts without a header (one with a thousands
  separator and a negative number, one whose numbers have no finite binary expansion,
  one with a number of seven decimals), and a row with a cell in rupees.
\<close>

definition report :: jsstring where
  "report = js ''Item          Value'' @ [10] @ js ''Apples        100'' @ [10]
      @ js ''Bananas       -50.5'' @ [10] @ js ''End of report''"

definition invoice :: jsstring where
  "invoice = js ''Due: 1,250.50 less -0.5'' @ [10] @ js ''ref 7''"

definition prices :: jsstring where
  "prices = js ''1.1 and 2.2''"

definition fine_print :: jsstring where
  "fine_print = js ''1.0000004''"

definition rent_line :: jsstring where
  "rent_line = js ''Rent        '' @ 8377 # js ''1,234.50''"

section \<open>Properties of the matcher\<close>

text \<open>
  Whenever the matcher succeeds, the continuation has been given the input after some
  \<open>j\<close> code units, with \<open>j\<close> at least the least length of the expression. So an
  expression that cannot match the empty string always moves \<^verbatim>\<open>lastIndex\<close> forward,
  and the loops over its matches end.
\<close>

lemma backoff_Some:
  "backoff lo j k = Some x \<Longrightarrow> \<exists>j'. lo \<le> j' \<and> j' \<le> j \<and> k j' = Some x"
proof (induction lo j k rule: backoff.induct)
  case (1 lo j k)
  show ?case
  proof (cases "k j")
    case None
    with "1.prems" have "j \<noteq> 0" "\<not> j < lo" and "backoff lo (j - 1) k = Some x"
      by (auto simp: backoff.simps [of lo j k] split: if_splits)
    with "1.IH" None obtain j' where "lo \<le> j'" "j' \<le> j - 1" "k j' = Some x"
      by auto
    then show ?thesis
      by (intro exI [of _ j']) auto
  next
    case (Some r)
    with "1.prems" show ?thesis
      by (intro exI [of _ j]) (auto simp: backoff.simps [of lo j k] split: if_splits)
  qed
qed

lemma rep_lazy_Some:
  "rep_lazy p i s k = Some x \<Longrightarrow> \<exists>j\<le>length s. k (i + j) (drop j s) = Some x"
proof (induction s arbitrary: i)
  case Nil
  then show ?case by simp
next
  case (Cons c cs)
  show ?case
  proof (cases "k i (c # cs)")
    case None
    with Cons.prems have "rep_lazy p (i + 1) cs k = Some x"
      by (auto split: if_splits)
    from Cons.IH [OF this] obtain j where "j \<le> length cs" "k (i + 1 + j) (drop j cs) = Some x"
      by auto
    then show ?thesis
      by (intro exI [of _ "Suc j"]) simp
  next
    case (Some r)
    with Cons.prems show ?thesis
      by (intro exI [of _ 0]) simp
  qed
qed

lemma run_length_le: "run_length p hi s \<le> length s"
  by (auto simp: run_length_def Let_def length_takeWhile_le min.coboundedI2 split: option.splits)

lemma rmatch_Some:
  "rmatch r i s g k = Some x \<Longrightarrow>
     \<exists>j g'. minlen r \<le> j \<and> j \<le> length s \<and> k (i + j) (drop j s) g' = Some x"
proof (induction r arbitrary: i s g k x)
  case Eps
  then show ?case by (intro exI [of _ 0]) auto
next
  case (Cls p)
  then obtain c cs where "s = c # cs" "p c" "k (i + 1) cs g = Some x"
    by (auto split: list.splits if_splits)
  then show ?case by (intro exI [of _ 1] exI [of _ g]) auto
next
  case (Cat a b)
  from Cat.prems have "rmatch a i s g (\<lambda>i' s' g'. rmatch b i' s' g' k) = Some x"
    by simp
  from Cat.IH(1) [OF this] obtain j1 g1 where
    j1: "minlen a \<le> j1" "j1 \<le> length s" "rmatch b (i + j1) (drop j1 s) g1 k = Some x"
    by blast
  from Cat.IH(2) [OF j1(3)] obtain j2 g2 where
    j2: "minlen b \<le> j2" "j2 \<le> length (drop j1 s)"
      "k (i + j1 + j2) (drop j2 (drop j1 s)) g2 = Some x"
    by blast
  show ?case
  proof (intro exI [of _ "j1 + j2"] exI [of _ g2] conjI)
    show "minlen (Cat a b) \<le> j1 + j2" using j1 j2 by simp
    show "j1 + j2 \<le> length s" using j1 j2 by simp
    have "drop j2 (drop j1 s) = drop (j1 + j2) s" by (simp add: add.commute)
    with j2(3) show "k (i + (j1 + j2)) (drop (j1 + j2) s) g2 = Some x"
      by (simp add: add.assoc)
  qed
next
  case (Alt a b)
  then have "rmatch a i s g k = Some x \<or> rmatch b i s g k = Some x"
    by (auto split: option.splits)
  then show ?case
  proof
    assume "rmatch a i s g k = Some x"
    from Alt.IH(1) [OF this] obtain j g' where
      "minlen a \<le> j" "j \<le> length s" "k (i + j) (drop j s) g' = Some x"
      by blast
    then show ?thesis
      by (intro exI [of _ j] exI [of _ g']) simp
  next
    assume "rmatch b i s g k = Some x"
    from Alt.IH(2) [OF this] obtain j g' where
      "minlen b \<le> j" "j \<le> length s" "k (i + j) (drop j s) g' = Some x"
      by blast
    then show ?thesis
      by (intro exI [of _ j] exI [of _ g']) simp
  qed
next
  case (Opt a)
  then have "rmatch a i s g k = Some x \<or> k i s g = Some x"
    by (auto split: option.splits)
  then show ?case
  proof
    assume "rmatch a i s g k = Some x"
    from Opt.IH [OF this] obtain j g' where
      "j \<le> length s" "k (i + j) (drop j s) g' = Some x"
      by blast
    then show ?thesis
      by (intro exI [of _ j] exI [of _ g']) simp
  next
    assume "k i s g = Some x"
    then show ?thesis by (intro exI [of _ 0] exI [of _ g]) auto
  qed
next
  case (Rep p lo hi)
  then have "backoff lo (run_length p hi s) (\<lambda>j. k (i + j) (drop j s) g) = Some x"
    by simp
  from backoff_Some [OF this] obtain j where
    "lo \<le> j" "j \<le> run_length p hi s" "k (i + j) (drop j s) g = Some x"
    by auto
  then show ?case
    using run_length_le [of p hi s] by (intro exI [of _ j] exI [of _ g]) auto
next
  case (Lazy p)
  then have "rep_lazy p i s (\<lambda>i' s'. k i' s' g) = Some x"
    by simp
  from rep_lazy_Some [OF this] obtain j where "j \<le> length s" "k (i + j) (drop j s) g = Some x"
    by blast
  then show ?case
    by (intro exI [of _ j] exI [of _ g]) simp
next
  case (Grp a)
  then have "rmatch a i s g (\<lambda>i' s' g'. k i' s' (g' @ [take (i' - i) s])) = Some x"
    by simp
  from Grp.IH [OF this] obtain j g' where
    "minlen a \<le> j" "j \<le> length s" "k (i + j) (drop j s) (g' @ [take (i + j - i) s]) = Some x"
    by blast
  then show ?case
    by (intro exI [of _ j] exI [of _ "g' @ [take (i + j - i) s]"]) simp
next
  case Bol
  then show ?case by (intro exI [of _ 0] exI [of _ g]) (auto split: if_splits)
next
  case Eol
  then show ?case by (intro exI [of _ 0] exI [of _ g]) (auto split: if_splits)
qed

lemma match_at_Some:
  assumes "match_at r i s = Some m"
  shows "\<exists>j. minlen r \<le> j \<and> j \<le> length s \<and> whole m = take j s \<and> endpos m = i + j
            \<and> rest m = drop j s"
proof -
  from assms rmatch_Some [of r i s "[]" _ m]
  obtain j g' where "minlen r \<le> j" "j \<le> length s"
    "Some \<lparr>whole = take (i + j - i) s, groups = g', endpos = i + j, rest = drop j s\<rparr> = Some m"
    unfolding match_at_def by blast
  then show ?thesis by (intro exI [of _ j]) auto
qed

lemma search_Some:
  "search r i s = Some m \<Longrightarrow>
     \<exists>n j. n + j \<le> length s \<and> minlen r \<le> j \<and> whole m = take j (drop n s)
       \<and> endpos m = i + n + j \<and> rest m = drop (n + j) s"
proof (induction s arbitrary: i)
  case Nil
  from match_at_Some [of r i "[]" m] Nil show ?case by auto
next
  case (Cons c cs)
  show ?case
  proof (cases "match_at r i (c # cs)")
    case None
    with Cons.prems have "search r (i + 1) cs = Some m" by simp
    from Cons.IH [OF this] obtain n j where
      "n + j \<le> length cs" "minlen r \<le> j" "whole m = take j (drop n cs)"
      "endpos m = i + 1 + n + j" "rest m = drop (n + j) cs"
      by blast
    then show ?thesis
      by (intro exI [of _ "Suc n"] exI [of _ j]) auto
  next
    case (Some m')
    with Cons.prems have "match_at r i (c # cs) = Some m" by simp
    from match_at_Some [OF this] obtain j where
      "minlen r \<le> j" "j \<le> length (c # cs)" "whole m = take j (c # cs)"
      "endpos m = i + j" "rest m = drop j (c # cs)"
      by blast
    then show ?thesis
      by (intro exI [of _ 0] exI [of _ j]) auto
  qed
qed

lemma search_match_at: "search r i s = Some m \<Longrightarrow> \<exists>j u. match_at r j u = Some m"
proof (induction s arbitrary: i)
  case Nil
  then show ?case by auto
next
  case (Cons c cs)
  then show ?case
    by (cases "match_at r i (c # cs)") auto
qed

lemma search_progress:
  assumes "search r i s = Some m" and "0 < minlen r"
  shows "length (rest m) < length s" and "whole m \<noteq> []"
proof -
  from search_Some [OF assms(1)] obtain n j where
    *: "n + j \<le> length s" "minlen r \<le> j" "whole m = take j (drop n s)" "rest m = drop (n + j) s"
    by blast
  with assms(2) show "length (rest m) < length s" by auto
  from * assms(2) show "whole m \<noteq> []" by auto
qed

lemma exec_all_total: "0 < minlen r \<Longrightarrow> exec_all r i s \<noteq> None"
proof (induction r i s rule: exec_all.induct)
  case (1 r i s)
  show ?case
  proof (cases "search r i s")
    case None
    then show ?thesis by (simp add: exec_all.simps [of r i s])
  next
    case (Some m)
    with "1.prems" have less: "length (rest m) < length s"
      by (simp add: search_progress)
    with "1.IH" [OF Some less "1.prems"] Some show ?thesis
      by (auto simp: exec_all.simps [of r i s])
  qed
qed

lemma blob_loop_total: "blob_loop minLen i s \<noteq> None"
proof (induction minLen i s rule: blob_loop.induct)
  case (1 minLen i s)
  show ?case
  proof (cases "search blob_re i s")
    case None
    then show ?thesis by (simp add: blob_loop.simps [of minLen i s])
  next
    case (Some m)
    then have less: "length (rest m) < length s"
      by (simp add: search_progress blob_re_def)
    show ?thesis
    proof (cases "minLen \<le> length (blob_candidate m) \<and> test b64_only_re (blob_candidate m)")
      case True
      with Some show ?thesis by (simp add: blob_loop.simps [of minLen i s] Let_def)
    next
      case False
      with "1.IH" [OF Some refl False less] Some less show ?thesis
        by (auto simp: blob_loop.simps [of minLen i s] Let_def)
    qed
  qed
qed

section \<open>Properties of the resolver\<close>

lemmas class_defs = is_ws_def is_digit_def is_alpha_def any_char_def b64_class_def b64_strict_def
  url_char_def upper_def

lemmas rx_defs = doc_ext_re_def pdf_re_def pdf_url_re_def data_re_def blob_re_def
  b64_only_re_def brace_re_def atob_re_def newline_re_def gap_re_def value_re_def prose_re_def
  cell_number_re_def token_re_def chr_def chr_i_def

lemmas rx_eval = js_def test_def match_at_def run_length_def backoff.simps rx_defs class_defs

lemma doc_ext_nonempty: "test doc_ext_re s \<Longrightarrow> s \<noteq> []"
  by (auto simp: rx_eval)

text \<open>
  C1. When a link of the page has an \<^verbatim>\<open>href\<close> that matches \<^verbatim>\<open>/\.pdf(\?|$)/i\<close>, the job
  ends the search with \<^verbatim>\<open>pdfUrl\<close> set to exactly that \<^verbatim>\<open>href\<close>, the first such in document
  order, and the scripts are never looked at: nothing is fetched, nothing is decoded,
  no file is written and \<^verbatim>\<open>combinedText\<close> is not built.
\<close>

theorem direct_link_first:
  assumes "\<exists>l\<in>set (links a). test doc_ext_re (snd l)"
  shows "\<exists>before l after.
           links a = before @ l # after
           \<and> (\<forall>b\<in>set before. \<not> test doc_ext_re (snd b))
           \<and> test doc_ext_re (snd l)
           \<and> resolve e a =
               Some \<lparr>pdfUrl = JStr (snd l), files = [], fetched = [], decoded = [],
                     combinedText = None\<rparr>"
proof -
  from assms obtain l where found: "find (\<lambda>l. test doc_ext_re (snd l)) (links a) = Some l"
    by (cases "find (\<lambda>l. test doc_ext_re (snd l)) (links a)") (auto simp: find_None_iff)
  then obtain i where i: "i < length (links a)" "test doc_ext_re (snd (links a ! i))"
    "l = links a ! i" "\<forall>j<i. \<not> test doc_ext_re (snd (links a ! j))"
    by (auto simp: find_Some_iff)
  have split: "links a = take i (links a) @ l # drop (Suc i) (links a)"
    using i(1,3) by (simp add: id_take_nth_drop)
  have before: "\<forall>b\<in>set (take i (links a)). \<not> test doc_ext_re (snd b)"
  proof
    fix b assume "b \<in> set (take i (links a))"
    then obtain j where "j < i" "b = links a ! j"
      using i(1) by (auto simp: in_set_conv_nth)
    with i(4) show "\<not> test doc_ext_re (snd b)" by simp
  qed
  have "direct_scan a = JStr (snd l)"
    using found by (simp add: direct_scan_def)
  moreover have "snd l \<noteq> []"
    using i(2,3) doc_ext_nonempty by blast
  ultimately have "resolve e a =
      Some \<lparr>pdfUrl = JStr (snd l), files = [], fetched = [], decoded = [], combinedText = None\<rparr>"
    by (simp add: resolve_def)
  with split before i(2,3) show ?thesis
    by blast
qed

text \<open>
  A page with an external script and three links, the second and third to documents:
  the second link is returned and the script is not fetched.
\<close>

theorem direct_link_first_witness:
  "(\<exists>l\<in>set (links linked_page). test doc_ext_re (snd l))
   \<and> resolve (node_env [(js ''https://cdn/x.js'', js ''var q;'')]) linked_page =
       Some \<lparr>pdfUrl = JStr (js ''https://h/Doc.PDF?dl=1''), files = [], fetched = [],
             decoded = [], combinedText = None\<rparr>"
proof -
  have hyp: "\<exists>l\<in>set (links linked_page). test doc_ext_re (snd l)"
    by (simp add: linked_page_def blank_page_def rx_eval)
  have first: "\<not> test doc_ext_re (js ''https://h/rules.html'')"
    by (simp add: rx_eval)
  from direct_link_first [OF hyp, of "node_env [(js ''https://cdn/x.js'', js ''var q;'')]"]
  obtain before l after where *: "links linked_page = before @ l # after"
    "\<forall>b\<in>set before. \<not> test doc_ext_re (snd b)" "test doc_ext_re (snd l)"
    "resolve (node_env [(js ''https://cdn/x.js'', js ''var q;'')]) linked_page =
       Some \<lparr>pdfUrl = JStr (snd l), files = [], fetched = [], decoded = [], combinedText = None\<rparr>"
    by blast
  have "resolve (node_env [(js ''https://cdn/x.js'', js ''var q;'')]) linked_page =
       Some \<lparr>pdfUrl = JStr (js ''https://h/Doc.PDF?dl=1''), files = [], fetched = [],
             decoded = [], combinedText = None\<rparr>"
    by (simp add: resolve_def direct_scan_def linked_page_def blank_page_def rx_eval)
  with hyp show ?thesis by simp
qed

lemmas resolve_eval = resolve_def direct_scan_def harvest_def scan_data_def findDataPdfInText_def
  scan_atob_def atobMatches_def unquote_def scan_blob_def findLongBase64Blob_def blob_loop.simps
  blob_candidate_def
  scan_json_def extractJsonBlock_def store_pdf_def probe_literal_def field_hit_def pdf_string_def
  is_pdf_def strip_ws_def inlineBytes_def startsWith_def exec_all.simps Let_def

lemmas env_eval = node_env_def node_base64_def b64_value_def ascii_text_def json_parse_def
  json_ws_def hexval_def json_escape_def json_number_def blank_page_def

text \<open>A match of the data-URI pattern captures one payload, which is not empty.\<close>

lemma data_re_groups:
  assumes "search data_re i s = Some m"
  shows "\<exists>payload. groups m = [payload] \<and> payload \<noteq> []"
proof -
  have lit: "\<exists>j. k (i + j) (drop j s) g = Some x"
    if "rmatch (lit_i str) i s g k = Some x" for str i s g and k :: "nat \<Rightarrow> jsstring \<Rightarrow> jsstring list \<Rightarrow> rmatch_result option" and x
    using that
  proof (induction str arbitrary: i s k rule: lit_i.induct)
    case 1
    then show ?case by (auto intro: exI [of _ 0])
  next
    case (2 c)
    then obtain a cs where "s = a # cs" "k (i + 1) cs g = Some x"
      by (auto simp: chr_i_def split: list.splits if_splits)
    then show ?case by (auto intro: exI [of _ 1])
  next
    case (3 c d cs)
    from "3.prems" obtain a r where s: "s = a # r"
      and next_lit: "rmatch (lit_i (d # cs)) (i + 1) r g k = Some x"
      by (auto simp: chr_i_def split: list.splits if_splits)
    from "3.IH" [OF next_lit] obtain j where "k (i + 1 + j) (drop j r) g = Some x"
      by blast
    with s show ?case
      by (auto intro: exI [of _ "Suc j"])
  qed
  from search_match_at [OF assms] obtain j u where at: "match_at data_re j u = Some m"
    by blast
  define K where "K = (\<lambda>i' s' (g :: jsstring list).
    Some \<lparr>whole = take (i' - j) u, groups = g, endpos = i', rest = s'\<rparr>)"
  from at have "rmatch (lit_i ''data:application/pdf;base64,'') j u []
      (\<lambda>i' s' g'. rmatch (Grp (Rep b64_class 1 None)) i' s' g' K) = Some m"
    unfolding match_at_def data_re_def K_def by (simp only: rmatch.simps)
  from lit [OF this] obtain n where
    "rmatch (Grp (Rep b64_class 1 None)) (j + n) (drop n u) [] K = Some m"
    by blast
  then have "backoff 1 (run_length b64_class None (drop n u))
      (\<lambda>ja. K (j + n + ja) (drop ja (drop n u)) ([] @ [take (j + n + ja - (j + n)) (drop n u)]))
      = Some m"
    by simp
  from backoff_Some [OF this] obtain ja where ja: "1 \<le> ja"
    "ja \<le> run_length b64_class None (drop n u)"
    "K (j + n + ja) (drop ja (drop n u)) ([] @ [take (j + n + ja - (j + n)) (drop n u)]) = Some m"
    by blast
  from ja(2) run_length_le [of b64_class None "drop n u"] have "ja \<le> length (drop n u)"
    by simp
  with ja(1) have "take ja (drop n u) \<noteq> []"
    by auto
  with ja(3) show ?thesis
    by (auto simp: K_def)
qed

text \<open>
  C2, as amended. When the direct scan finds nothing and the text of the scripts has a
  match of the data-URI pattern whose captured payload keeps at least one character
  after its white space is removed, the job writes the base64 decoding of the stripped
  payload to a file and points \<^verbatim>\<open>pdfUrl\<close> to it; step 3 reads these bytes back. The first
  bytes are not looked at: this holds for every decoder.
\<close>

theorem data_uri_inline:
  assumes "direct_scan a = JNull"
    and "harvest e a = (txt, urls)"
    and "search data_re 0 txt = Some m"
    and "groups m = payload # gs"
    and "strip_ws payload \<noteq> []"
  shows "\<exists>st. resolve e a = Some st
           \<and> pdfUrl st = JStr (js ''file://'' @ tempFile e (js ''embedded_''))
           \<and> files st = [(tempFile e (js ''embedded_''), base64 e (strip_ws payload))]
           \<and> inlineBytes st = Some (base64 e (strip_ws payload))
           \<and> decoded st = [strip_ws payload]
           \<and> fetched st = urls
           \<and> combinedText st = Some txt"
proof -
  from assms(5) have "payload \<noteq> []"
    by (auto simp: strip_ws_def)
  with assms(3,4) have found: "findDataPdfInText txt = Some (strip_ws payload)"
    by (simp add: findDataPdfInText_def)
  have len: "length (js ''file://'') = 7"
    by (simp add: js_def)
  show ?thesis
    using assms(1,2,5) found len
    by (simp add: resolve_def scan_data_def scan_atob_def scan_blob_def scan_json_def
      store_pdf_def inlineBytes_def startsWith_def js_def)
qed

text \<open>
  A data URI with a line break in its payload that decodes to \<^verbatim>\<open>Hello\<close>, which does not
  start with \<^verbatim>\<open>%PDF\<close>, is accepted.
\<close>

theorem data_uri_inline_witness:
  "direct_scan hello_page = JNull
   \<and> (\<exists>m. search data_re 0 (fst (harvest (node_env []) hello_page)) = Some m
          \<and> groups m = [js ''SGVs'' @ [10] @ js ''bG8='']
          \<and> strip_ws (js ''SGVs'' @ [10] @ js ''bG8='') = js ''SGVsbG8='')
   \<and> node_base64 (js ''SGVsbG8='') = js ''Hello''
   \<and> \<not> is_pdf (js ''Hello'')
   \<and> map_option inlineBytes (resolve (node_env []) hello_page) = Some (Some (js ''Hello''))"
proof -
  have d: "direct_scan hello_page = JNull"
    by (simp add: direct_scan_def hello_page_def blank_page_def rx_eval)
  have h: "harvest (node_env []) hello_page =
      (js ''u = \"data:Application/PDF;base64,SGVs'' @ [10] @ js ''bG8=\";'' @ [10, 10], [])"
    by (simp add: harvest_def hello_page_def blank_page_def)
  have s: "search data_re 0
      (js ''u = \"data:Application/PDF;base64,SGVs'' @ [10] @ js ''bG8=\";'' @ [10, 10]) =
      Some \<lparr>whole = js ''data:Application/PDF;base64,SGVs'' @ [10] @ js ''bG8='',
        groups = [js ''SGVs'' @ [10] @ js ''bG8=''], endpos = 42, rest = js ''\";'' @ [10, 10]\<rparr>"
    by (simp add: rx_eval)
  have w: "strip_ws (js ''SGVs'' @ [10] @ js ''bG8='') = js ''SGVsbG8=''"
    by (simp add: strip_ws_def js_def is_ws_def)
  have b: "node_base64 (js ''SGVsbG8='') = js ''Hello''"
    by (simp add: node_base64_def b64_value_def js_def)
  have n: "\<not> is_pdf (js ''Hello'')"
    by (simp add: is_pdf_def js_def)
  from data_uri_inline [OF d h s, of "js ''SGVs'' @ [10] @ js ''bG8=''" "[]"] w b
  have "map_option inlineBytes (resolve (node_env []) hello_page) = Some (Some (js ''Hello''))"
    by (auto simp: node_env_def js_def)
  with d h s w b n show ?thesis
    by simp
qed

text \<open>
  C2 as stated fails: a data URI of the PDF type whose payload is a line break alone
  matches the pattern, with the line break captured, and yet no bytes are returned and
  \<^verbatim>\<open>pdfUrl\<close> stays null, since the stripped payload is the empty string.
\<close>

theorem data_uri_empty_counterexample:
  "search data_re 0 (js ''u = \"data:application/pdf;base64,'' @ [10] @ js ''\";'' @ [10, 10]) =
      Some \<lparr>whole = js ''data:application/pdf;base64,'' @ [10], groups = [[10]], endpos = 34,
        rest = js ''\";'' @ [10, 10]\<rparr>
   \<and> resolve (node_env []) starved_page =
      Some \<lparr>pdfUrl = JNull, files = [], fetched = [], decoded = [],
        combinedText = Some (js ''u = \"data:application/pdf;base64,'' @ [10] @ js ''\";'' @ [10, 10])\<rparr>"
  by (simp add: starved_page_def resolve_eval env_eval rx_eval)

lemma atobMatches_total: "atobMatches txt \<noteq> None"
proof -
  have "0 < minlen atob_re"
    by (simp add: rx_defs)
  then have "exec_all atob_re 0 txt \<noteq> None"
    by (rule exec_all_total)
  then show ?thesis
    by (simp add: atobMatches_def)
qed

lemma atob_loop_Nothing:
  "\<forall>p\<in>set before. probe_literal e (strip_ws p) = Nothing \<Longrightarrow>
     atob_loop e (before @ later) st =
       atob_loop e later (st\<lparr>decoded := decoded st @ map strip_ws before\<rparr>)"
  by (induction before arbitrary: st) (simp_all add: Let_def)





lemma blob_loop_length:
  "blob_loop minLen i s = Some (Some c) \<Longrightarrow> minLen \<le> length c"
proof (induction minLen i s rule: blob_loop.induct)
  case (1 minLen i s)
  show ?case
  proof (cases "search blob_re i s")
    case None
    with "1.prems" show ?thesis by (simp add: blob_loop.simps [of minLen i s])
  next
    case (Some m)
    show ?thesis
    proof (cases "minLen \<le> length (blob_candidate m) \<and> test b64_only_re (blob_candidate m)")
      case True
      with Some "1.prems" show ?thesis
        by (simp add: blob_loop.simps [of minLen i s] Let_def)
    next
      case False
      with Some "1.prems" have less: "length (rest m) < length s"
        and next_loop: "blob_loop minLen (endpos m) (rest m) = Some (Some c)"
        by (auto simp: blob_loop.simps [of minLen i s] Let_def split: if_splits)
      from "1.IH" [OF Some refl False less next_loop] show ?thesis .
    qed
  qed
qed

text \<open>The job returns from its loops for every page and every environment.\<close>

lemma resolve_total: "resolve e a \<noteq> None"
proof (cases "truthy (direct_scan a)")
  case True
  then show ?thesis by (simp add: resolve_def)
next
  case False
  obtain t urls where h: "harvest e a = (t, urls)"
    by (cases "harvest e a")
  define st1 where "st1 = scan_data e t \<lparr>pdfUrl = direct_scan a, files = [], fetched = urls,
    decoded = [], combinedText = Some t\<rparr>"
  have "scan_atob e t st1 \<noteq> None"
    using atobMatches_total [of t] by (simp add: scan_atob_def)
  then obtain st2 where atob: "scan_atob e t st1 = Some st2"
    by blast
  have "scan_blob e t st2 \<noteq> None"
    using blob_loop_total [of 300 0 t]
    by (auto simp: scan_blob_def findLongBase64Blob_def Let_def split: option.splits)
  then obtain st3 where "scan_blob e t st2 = Some st3"
    by blast
  with False h atob show ?thesis
    by (simp add: resolve_def st1_def)
qed

text \<open>
  The long-blob search returns the candidate of the first match, in the order of the
  text, whose candidate passes the two tests.
\<close>

lemma blob_loop_first:
  "exec_all blob_re i s = Some ms \<Longrightarrow>
     blob_loop minLen i s =
       Some (map_option blob_candidate
         (find (\<lambda>m. minLen \<le> length (blob_candidate m) \<and> test b64_only_re (blob_candidate m)) ms))"
proof (induction minLen i s arbitrary: ms rule: blob_loop.induct)
  case (1 minLen i s)
  show ?case
  proof (cases "search blob_re i s")
    case None
    with "1.prems" show ?thesis
      by (simp add: blob_loop.simps [of minLen i s] exec_all.simps [of blob_re i s])
  next
    case (Some m)
    with "1.prems" obtain ms' where less: "length (rest m) < length s"
      and ms: "ms = m # ms'" and rec: "exec_all blob_re (endpos m) (rest m) = Some ms'"
      by (auto simp: exec_all.simps [of blob_re i s] split: if_splits)
    show ?thesis
    proof (cases "minLen \<le> length (blob_candidate m) \<and> test b64_only_re (blob_candidate m)")
      case True
      with Some ms show ?thesis
        by (simp add: blob_loop.simps [of minLen i s] Let_def)
    next
      case False
      have "blob_loop minLen i s = blob_loop minLen (endpos m) (rest m)"
        using False Some less by (auto simp: blob_loop.simps [of minLen i s] Let_def)
      also have "\<dots> = Some (map_option blob_candidate
         (find (\<lambda>m. minLen \<le> length (blob_candidate m) \<and> test b64_only_re (blob_candidate m)) ms'))"
        by (rule "1.IH" [OF Some refl False less rec])
      finally show ?thesis
        using False ms by auto
    qed
  qed
qed

lemma blob_first_qualifying:
  assumes "findLongBase64Blob t minLen = Some (Some c)"
  shows "\<exists>before m after.
           exec_all blob_re 0 t = Some (before @ m # after)
           \<and> c = blob_candidate m
           \<and> minLen \<le> length c
           \<and> (\<forall>b\<in>set before. \<not> (minLen \<le> length (blob_candidate b)
                  \<and> test b64_only_re (blob_candidate b)))"
proof -
  let ?ok = "\<lambda>m. minLen \<le> length (blob_candidate m) \<and> test b64_only_re (blob_candidate m)"
  from exec_all_total [of blob_re 0 t] obtain ms where ms: "exec_all blob_re 0 t = Some ms"
    by (auto simp: blob_re_def)
  from blob_loop_first [OF ms, of minLen] assms
  obtain m where found: "find ?ok ms = Some m" and c: "c = blob_candidate m"
    by (auto simp: findLongBase64Blob_def)
  then obtain i where i: "i < length ms" "?ok (ms ! i)" "m = ms ! i" "\<forall>j<i. \<not> ?ok (ms ! j)"
    by (auto simp: find_Some_iff)
  have split: "ms = take i ms @ m # drop (Suc i) ms"
    using i(1,3) by (simp add: id_take_nth_drop)
  have before: "\<forall>b\<in>set (take i ms). \<not> ?ok b"
  proof
    fix b assume "b \<in> set (take i ms)"
    then obtain j where "j < i" "b = ms ! j"
      using i(1) by (auto simp: in_set_conv_nth)
    with i(4) show "\<not> ?ok b" by simp
  qed
  from ms split have "exec_all blob_re 0 t = Some (take i ms @ m # drop (Suc i) ms)"
    by simp
  with c i(2,3) before show ?thesis
    by blast
qed

text \<open>
  C4. The long-blob search returns the first run of 200 or more characters of the class
  whose form without white space has at least 300 characters. When the earlier scans
  find nothing and the decoding of this candidate does not start with \<^verbatim>\<open>%PDF\<close>, the candidate is dropped and no other blob
  is tried: it is the only string decoded after the literals, no file is written, no
  bytes are returned, and the result of the job is that of the scan for a JSON block,
  which leaves \<^verbatim>\<open>pdfUrl\<close> null when there is no such block.
\<close>

theorem long_blob_single_attempt:
  assumes "direct_scan a = JNull"
    and "harvest e a = (txt, urls)"
    and "findDataPdfInText txt \<in> {None, Some []}"
    and "atobMatches txt = Some lits"
    and "\<forall>p\<in>set lits. probe_literal e (strip_ws p) = Nothing"
    and "findLongBase64Blob txt 300 = Some (Some c)"
    and "\<not> is_pdf (base64 e c)"
  shows "\<exists>st. resolve e a = Some st
           \<and> st = scan_json e txt \<lparr>pdfUrl = JNull, files = [], fetched = urls,
                     decoded = map strip_ws lits @ [c], combinedText = Some txt\<rparr>
           \<and> files st = []
           \<and> inlineBytes st = None
           \<and> decoded st = map strip_ws lits @ [c]
           \<and> (\<not> truthy (extractJsonBlock e txt) \<longrightarrow> pdfUrl st = JNull)
           \<and> (\<exists>before m after.
                 exec_all blob_re 0 txt = Some (before @ m # after)
                 \<and> c = blob_candidate m
                 \<and> 300 \<le> length c
                 \<and> (\<forall>b\<in>set before. \<not> (300 \<le> length (blob_candidate b)
                        \<and> test b64_only_re (blob_candidate b))))"
proof -
  define st0 where "st0 = \<lparr>pdfUrl = JNull, files = [], fetched = urls, decoded = [],
    combinedText = Some txt\<rparr>"
  define st3 where "st3 = \<lparr>pdfUrl = JNull, files = [], fetched = urls,
    decoded = map strip_ws lits @ [c], combinedText = Some txt\<rparr>"
  have data: "scan_data e txt st0 = st0"
    using assms(3) by (auto simp: scan_data_def)
  have atob: "scan_atob e txt st0 = Some (st0\<lparr>decoded := map strip_ws lits\<rparr>)"
    using assms(4) atob_loop_Nothing [OF assms(5), of "[]" st0]
    by (simp add: scan_atob_def st0_def)
  from assms(6) have "300 \<le> length c"
    by (simp add: findLongBase64Blob_def blob_loop_length)
  then have "c \<noteq> []" by auto
  with assms(6,7) have blob: "scan_blob e txt (st0\<lparr>decoded := map strip_ws lits\<rparr>) = Some st3"
    by (simp add: scan_blob_def st0_def st3_def Let_def)
  have res: "resolve e a = Some (scan_json e txt st3)"
    using assms(1,2) data atob blob by (simp add: resolve_def st0_def)
  have keep: "files (scan_json e txt st3) = []" "decoded (scan_json e txt st3) = map strip_ws lits @ [c]"
    by (simp_all add: scan_json_def st3_def Let_def)
  have none: "inlineBytes (scan_json e txt st3) = None"
    using keep(1) by (simp add: inlineBytes_def split: jsval.splits)
  have null: "pdfUrl (scan_json e txt st3) = JNull" if "\<not> truthy (extractJsonBlock e txt)"
    using that by (simp add: scan_json_def st3_def Let_def)
  from res keep none null have job: "\<exists>st. resolve e a = Some st
      \<and> st = scan_json e txt \<lparr>pdfUrl = JNull, files = [], fetched = urls,
                decoded = map strip_ws lits @ [c], combinedText = Some txt\<rparr>
      \<and> files st = []
      \<and> inlineBytes st = None
      \<and> decoded st = map strip_ws lits @ [c]
      \<and> (\<not> truthy (extractJsonBlock e txt) \<longrightarrow> pdfUrl st = JNull)"
    unfolding st3_def by blast
  from blob_first_qualifying [OF assms(6)] job show ?thesis
    by blast
qed

lemma search_first_char:
  assumes "\<And>j t. match_at r j t \<noteq> None \<Longrightarrow> \<exists>c u. t = c # u \<and> P c"
    and "\<forall>c\<in>set s. \<not> P c"
  shows "search r i s = None"
  using assms(2)
proof (induction s arbitrary: i)
  case Nil
  from assms(1) [of i "[]"] show ?case
    by (cases "match_at r i []") simp_all
next
  case (Cons c cs)
  from assms(1) [of i "c # cs"] Cons.prems have "match_at r i (c # cs) = None"
    by (cases "match_at r i (c # cs)") simp_all
  with Cons show ?case by simp
qed

lemma data_re_first:
  "match_at data_re j t \<noteq> None \<Longrightarrow> \<exists>c u. t = c # u \<and> (c = 68 \<or> c = 100)"
  by (cases t) (auto simp: match_at_def data_re_def chr_i_def upper_def split: if_splits)

lemma atob_re_first: "match_at atob_re j t \<noteq> None \<Longrightarrow> \<exists>c u. t = c # u \<and> (c = 97)"
  by (cases t) (auto simp: match_at_def atob_re_def chr_def split: if_splits)

lemma brace_re_first: "match_at brace_re j t \<noteq> None \<Longrightarrow> \<exists>c u. t = c # u \<and> (c = 123)"
  by (cases t) (auto simp: match_at_def brace_re_def chr_def split: if_splits)

lemma search_at_head: "s \<noteq> [] \<Longrightarrow> match_at r i s = Some m \<Longrightarrow> search r i s = Some m"
  by (cases s) simp_all

lemma b64_only_test:
  assumes "c \<noteq> []" and "\<forall>x\<in>set c. b64_strict x"
  shows "test b64_only_re c"
proof -
  from assms(2) have "run_length b64_strict None c = length c"
    by (simp add: run_length_def takeWhile_eq_all_conv [THEN iffD2])
  then have "match_at b64_only_re 0 c \<noteq> None"
    using assms(1)
    by (simp add: match_at_def b64_only_re_def backoff.simps [of "Suc 0" "length c"] Suc_le_eq)
  then obtain m where "match_at b64_only_re 0 c = Some m" by auto
  with assms(1) have "search b64_only_re 0 c = Some m"
    by (rule search_at_head)
  then show ?thesis by (simp add: test_def)
qed

text \<open>
  A script of 300 letters \<^verbatim>\<open>A\<close>: the blob decodes to zero bytes and nothing is found.
\<close>

theorem long_blob_single_attempt_witness:
  "findLongBase64Blob (replicate 300 65 @ [10, 10]) 300 = Some (Some (replicate 300 65))
   \<and> \<not> is_pdf (node_base64 (replicate 300 65))
   \<and> resolve (node_env []) blob_page =
       Some \<lparr>pdfUrl = JNull, files = [], fetched = [], decoded = [replicate 300 65],
             combinedText = Some (replicate 300 65 @ [10, 10])\<rparr>"
proof -
  let ?e = "node_env []"
  let ?txt = "replicate 300 (65::nat) @ [10, 10]"
  have d: "direct_scan blob_page = JNull"
    by (simp add: direct_scan_def blob_page_def blank_page_def rx_eval)
  have h: "harvest ?e blob_page = (?txt, [])"
    by (simp add: harvest_def blob_page_def blank_page_def)
  have "search data_re 0 ?txt = None"
  proof (rule search_first_char [where P = "\<lambda>c. c = 68 \<or> c = 100"])
    show "\<exists>c u. t = c # u \<and> (c = 68 \<or> c = 100)" if "match_at data_re j t \<noteq> None" for j t
      using that by (rule data_re_first)
    show "\<forall>c\<in>set ?txt. \<not> (c = 68 \<or> c = 100)"
      by simp
  qed
  then have f: "findDataPdfInText ?txt \<in> {None, Some []}"
    by (simp add: findDataPdfInText_def)
  have "search atob_re 0 ?txt = None"
  proof (rule search_first_char [where P = "\<lambda>c. c = 97"])
    show "\<exists>c u. t = c # u \<and> (c = 97)" if "match_at atob_re j t \<noteq> None" for j t
      using that by (rule atob_re_first)
    show "\<forall>c\<in>set ?txt. \<not> (c = 97)"
      by simp
  qed
  then have m: "atobMatches ?txt = Some []"
    by (simp add: atobMatches_def exec_all.simps)
  have run: "takeWhile b64_class ?txt = ?txt"
    by (simp add: takeWhile_eq_all_conv class_defs)
  have "match_at blob_re 0 ?txt =
      Some \<lparr>whole = ?txt, groups = [?txt], endpos = 302, rest = []\<rparr>"
    by (simp add: match_at_def blob_re_def run_length_def run backoff.simps [of 200 302])
  then have s: "search blob_re 0 ?txt =
      Some \<lparr>whole = ?txt, groups = [?txt], endpos = 302, rest = []\<rparr>"
    by (intro search_at_head) simp_all
  have w: "strip_ws ?txt = replicate 300 65"
    by (simp add: strip_ws_def is_ws_def)
  have "test b64_only_re (replicate 300 65)"
    by (rule b64_only_test) (simp_all add: class_defs)
  with s w have b: "findLongBase64Blob ?txt 300 = Some (Some (replicate 300 65))"
    by (simp add: findLongBase64Blob_def blob_loop.simps [of 300 0 ?txt] blob_candidate_def)
  have four: "replicate 300 65 = 65 # 65 # 65 # 65 # replicate 296 (65::nat)"
    by (simp add: numeral_eq_Suc)
  have n: "\<not> is_pdf (base64 ?e (replicate 300 65))"
    unfolding four by (simp add: is_pdf_def node_env_def node_base64_def b64_value_def)
  have "search brace_re 0 ?txt = None"
  proof (rule search_first_char [where P = "\<lambda>c. c = 123"])
    show "\<exists>c u. t = c # u \<and> (c = 123)" if "match_at brace_re j t \<noteq> None" for j t
      using that by (rule brace_re_first)
    show "\<forall>c\<in>set ?txt. \<not> (c = 123)"
      by simp
  qed
  then have j: "\<not> truthy (extractJsonBlock ?e ?txt)"
    by (simp add: extractJsonBlock_def)
  from long_blob_single_attempt [OF d h f m _ b n] j
  have "resolve ?e blob_page =
       Some \<lparr>pdfUrl = JNull, files = [], fetched = [], decoded = [replicate 300 65],
             combinedText = Some ?txt\<rparr>"
    by (auto simp: scan_json_def)
  with b n show ?thesis
    by (simp add: node_env_def)
qed

text \<open>
  What the scan for a JSON block does: the text from the first opening brace to the
  last closing brace is parsed, and a non-empty string field \<^verbatim>\<open>url\<close> with \<^verbatim>\<open>.pdf\<close> in
  it is taken.
\<close>

lemma json_span_url:
  assumes "direct_scan a = JNull"
    and "harvest e a = (txt, urls)"
    and "findDataPdfInText txt \<in> {None, Some []}"
    and "atobMatches txt = Some lits"
    and "\<forall>p\<in>set lits. probe_literal e (strip_ws p) = Nothing"
    and "findLongBase64Blob txt 300 = Some None"
    and "search brace_re 0 txt = Some m"
    and "jsonParse e (whole m) = Some parsed"
    and "truthy parsed"
    and "getprop parsed (js ''url'') = JStr u"
    and "u \<noteq> []"
    and "test pdf_re u"
  shows "map_option pdfUrl (resolve e a) = Some (JStr u)"
proof -
  define st0 where "st0 = \<lparr>pdfUrl = JNull, files = [], fetched = urls, decoded = [],
    combinedText = Some txt\<rparr>"
  have data: "scan_data e txt st0 = st0"
    using assms(3) by (auto simp: scan_data_def)
  have atob: "scan_atob e txt st0 = Some (st0\<lparr>decoded := map strip_ws lits\<rparr>)"
    using assms(4) atob_loop_Nothing [OF assms(5), of "[]" st0]
    by (simp add: scan_atob_def st0_def)
  have blob: "scan_blob e txt (st0\<lparr>decoded := map strip_ws lits\<rparr>) =
      Some (st0\<lparr>decoded := map strip_ws lits\<rparr>)"
    using assms(6) by (simp add: scan_blob_def st0_def)
  have "extractJsonBlock e txt = parsed"
    using assms(7,8) by (simp add: extractJsonBlock_def)
  then have "pdfUrl (scan_json e txt (st0\<lparr>decoded := map strip_ws lits\<rparr>)) = JStr u"
    using assms(9-12) by (simp add: scan_json_def st0_def pdf_string_def)
  then show ?thesis
    using assms(1,2) data atob blob by (simp add: resolve_def st0_def)
qed

text \<open>
  C5. The claim fails on a text with two blocks in braces. In the script
  \<^verbatim>\<open>var cfg = {"url":"doc.pdf"}; var o = {};\<close> the first block is valid JSON with a
  \<^verbatim>\<open>url\<close> that ends in \<^verbatim>\<open>.pdf\<close>, but the expression \<^verbatim>\<open>/\{[\s\S]*\}/\<close> matches up to the
  last closing brace of the text, this span is not JSON, and \<^verbatim>\<open>pdfUrl\<close> stays null. With
  the first block alone the \<^verbatim>\<open>url\<close> is returned.
\<close>

theorem json_span_to_last_brace:
  "map_option whole
      (search brace_re 0 (js ''var cfg = {\"url\":\"doc.pdf\"}; var o = {};'' @ [10, 10])) =
      Some (js ''{\"url\":\"doc.pdf\"}; var o = {}'')
   \<and> json_parse (js ''{\"url\":\"doc.pdf\"}'') = Some (JObj [(js ''url'', JStr (js ''doc.pdf''))])
   \<and> test doc_ext_re (js ''doc.pdf'')
   \<and> json_parse (js ''{\"url\":\"doc.pdf\"}; var o = {}'') = None
   \<and> resolve (node_env []) two_blocks_page =
      Some \<lparr>pdfUrl = JNull, files = [], fetched = [], decoded = [],
        combinedText = Some (js ''var cfg = {\"url\":\"doc.pdf\"}; var o = {};'' @ [10, 10])\<rparr>
   \<and> map_option pdfUrl (resolve (node_env []) one_block_page) = Some (JStr (js ''doc.pdf''))"
proof -
  have a: "map_option whole
      (search brace_re 0 (js ''var cfg = {\"url\":\"doc.pdf\"}; var o = {};'' @ [10, 10])) =
      Some (js ''{\"url\":\"doc.pdf\"}; var o = {}'')"
    by (simp add: rx_eval)
  have b: "json_parse (js ''{\"url\":\"doc.pdf\"}'') = Some (JObj [(js ''url'', JStr (js ''doc.pdf''))])"
    by (simp add: env_eval js_def)
  have c: "test doc_ext_re (js ''doc.pdf'')"
    by (simp add: rx_eval)
  have d: "json_parse (js ''{\"url\":\"doc.pdf\"}; var o = {}'') = None"
    by (simp add: env_eval js_def)
  have e: "resolve (node_env []) two_blocks_page =
      Some \<lparr>pdfUrl = JNull, files = [], fetched = [], decoded = [],
        combinedText = Some (js ''var cfg = {\"url\":\"doc.pdf\"}; var o = {};'' @ [10, 10])\<rparr>"
    by (simp add: two_blocks_page_def resolve_eval env_eval rx_eval)
  have f: "map_option pdfUrl (resolve (node_env []) one_block_page) = Some (JStr (js ''doc.pdf''))"
    by (simp add: one_block_page_def resolve_eval env_eval rx_eval)
  from a b c d e f show ?thesis by blast
qed

section \<open>Properties of the table summation\<close>

text \<open>Facts to compute with: the floor of a quotient of numerals, and values of the rounding.\<close>

lemma floor_rat_numeral: "\<lfloor>numeral a / numeral b :: rat\<rfloor> = numeral a div numeral b"
  by (metis floor_divide_of_int_eq of_int_numeral)

lemmas rnd_eval = exponent_of_def ilog2.simps pow2_def round_half_even_def floor_rat_numeral

lemma rnd_100: "rnd 100 = Fin 100"
  unfolding rnd_def Let_def by (simp add: rnd_eval)

lemma rnd_minus_50_5: "rnd (- (101 / 2)) = Fin (- (101 / 2))"
  unfolding rnd_def Let_def by (simp add: rnd_eval)

lemma rnd_49_5: "rnd (99 / 2) = Fin (99 / 2)"
  unfolding rnd_def Let_def by (simp add: rnd_eval)

lemma rnd_1234_5: "rnd (2469 / 2) = Fin (2469 / 2)"
  unfolding rnd_def Let_def by (simp add: rnd_eval)

lemma rnd_120: "rnd 120 = Fin 120"
  unfolding rnd_def Let_def by (simp add: rnd_eval)

lemma rnd_30: "rnd 30 = Fin 30"
  unfolding rnd_def Let_def by (simp add: rnd_eval)

lemma rnd_150: "rnd 150 = Fin 150"
  unfolding rnd_def Let_def by (simp add: rnd_eval)

lemmas rnd_values = rnd_100 rnd_minus_50_5 rnd_49_5 rnd_1234_5 rnd_120 rnd_30 rnd_150

lemmas parse_eval = dec_def parse_exponent_def pow10_def startsWith_def js_def is_ws_def
  is_digit_def rnd_values

lemma parse_100: "parseFloat (js ''100'') = Fin 100"
  unfolding parseFloat_def Let_def by (simp add: parse_eval)

lemma parse_minus_50_5: "parseFloat (js ''-50.5'') = Fin (- (101 / 2))"
  unfolding parseFloat_def Let_def by (simp add: parse_eval)

lemma parse_1234_50: "parseFloat (js ''1234.50'') = Fin (2469 / 2)"
  unfolding parseFloat_def Let_def by (simp add: parse_eval)

lemma parse_120: "parseFloat (js ''120'') = Fin 120"
  unfolding parseFloat_def Let_def by (simp add: parse_eval)

lemma parse_30: "parseFloat (js ''30'') = Fin 30"
  unfolding parseFloat_def Let_def by (simp add: parse_eval)

lemma answer_49_5: "answer (Fin (99 / 2)) = Fin (99 / 2)"
  unfolding answer_def Let_def by (simp add: floor_rat_numeral rnd_49_5)

lemma answer_150: "answer (Fin 150) = Fin 150"
  unfolding answer_def Let_def by simp

lemmas parse_values = parse_100 [unfolded js_def, simplified]
  parse_minus_50_5 [unfolded js_def, simplified] parse_1234_50 [unfolded js_def, simplified]
  parse_120 [unfolded js_def, simplified] parse_30 [unfolded js_def, simplified]

lemmas table_eval = split_def trim_def is_header_def valueColIndex_def table_end_def
  add_row_def

lemma report_lines:
  "table_lines report =
    [js ''Item          Value'', js ''Apples        100'', js ''Bananas       -50.5'',
     js ''End of report'']"
  by (simp add: report_def table_lines_def rx_eval table_eval)

lemma report_header:
  "is_header (js ''Item          Value'')" "valueColIndex (js ''Item          Value'') = 1"
  by (simp_all add: rx_eval table_eval)

lemma cell_100: "cell_value (js ''100'') = Some (Fin 100)"
  unfolding cell_value_def Let_def by (simp add: rx_eval trim_def parse_values)

lemma cell_minus_50_5: "cell_value (js ''-50.5'') = Some (Fin (- (101 / 2)))"
  unfolding cell_value_def Let_def by (simp add: rx_eval trim_def parse_values)

lemma cell_rupee: "cell_value (8377 # js ''1,234.50'') = Some (Fin (2469 / 2))"
  unfolding cell_value_def Let_def by (simp add: rx_eval trim_def parse_values)

lemmas cell_values = cell_100 [unfolded js_def, simplified]
  cell_minus_50_5 [unfolded js_def, simplified] cell_rupee [unfolded js_def, simplified]

lemma report_rows:
  "\<not> table_end (js ''Apples        100'')"
  "add_row 1 (js ''Apples        100'') (Fin 0) = Fin 100"
  "\<not> table_end (js ''Bananas       -50.5'')"
  "add_row 1 (js ''Bananas       -50.5'') (Fin 100) = Fin (99 / 2)"
  "table_end (js ''End of report'')"
  by (simp_all add: rx_eval table_eval cell_values rnd_values)

lemma report_sum:
  "sum_table ([js ''Item          Value'', js ''Apples        100'', js ''Bananas       -50.5'',
     js ''End of report''] @ rows_after) = Some (Fin (99 / 2))"
  by (simp add: report_header report_rows)

text \<open>
  C6. The page text of the four lines \<^verbatim>\<open>Item          Value\<close>, \<^verbatim>\<open>Apples        100\<close>,
  \<^verbatim>\<open>Bananas       -50.5\<close> and \<^verbatim>\<open>End of report\<close>: the first line is the header and its value
  column has index 1, the last line ends the table, and the sum and the answer are
  49.5, whatever lines follow the last one.
\<close>

theorem report_sums_to_49_5:
  "table_lines report =
     [js ''Item          Value'', js ''Apples        100'', js ''Bananas       -50.5'',
      js ''End of report'']
   \<and> is_header (js ''Item          Value'')
   \<and> valueColIndex (js ''Item          Value'') = 1
   \<and> table_end (js ''End of report'')
   \<and> sum_table (table_lines report @ rows_after) = Some (Fin (99 / 2))
   \<and> page_sum report = Fin (99 / 2)
   \<and> page_answer report = Fin (99 / 2)"
proof -
  have "sum_table (table_lines report @ rows_after) = Some (Fin (99 / 2))"
    unfolding report_lines by (rule report_sum)
  moreover have "page_sum report = Fin (99 / 2)"
    using report_sum [of "[]"] by (simp add: page_sum_def report_lines)
  ultimately show ?thesis
    by (simp add: report_lines report_header report_rows page_answer_def answer_49_5)
qed

lemma sum_table_None: "sum_table ls = None \<longleftrightarrow> (\<forall>l\<in>set ls. \<not> is_header l)"
  by (induction ls) auto

lemma rnd_not_NaN: "rnd q \<noteq> NaN"
  by (simp add: rnd_def Let_def)

lemma digit_facts:
  assumes "is_digit d"
  shows "\<not> is_ws d" "d \<noteq> 45" "d \<noteq> 43" "d \<noteq> 44" "d \<noteq> 73"
  using assms by (auto simp: is_digit_def is_ws_def)

lemma parseFloat_digit:
  assumes "is_digit d"
  shows "parseFloat (d # r) \<noteq> NaN" and "parseFloat (45 # d # r) \<noteq> NaN"
proof -
  have inf: "\<not> startsWith (d # r) (js ''Infinity'')"
    using digit_facts(5) [OF assms] by (simp add: startsWith_def js_def)
  show "parseFloat (d # r) \<noteq> NaN"
    unfolding parseFloat_def Let_def
    using assms digit_facts [OF assms] inf by (simp add: rnd_not_NaN)
  show "parseFloat (45 # d # r) \<noteq> NaN"
    unfolding parseFloat_def Let_def
    using assms digit_facts [OF assms] inf by (simp add: rnd_not_NaN is_ws_def)
qed

lemma match_all_matches:
  "t \<in> set (match_all r i s) \<Longrightarrow> \<exists>j u m. match_at r j u = Some m \<and> t = whole m"
proof (induction r i s rule: match_all.induct)
  case (1 r i s)
  show ?case
  proof (cases "search r i s")
    case None
    with "1.prems" show ?thesis by (simp add: match_all.simps [of r i s])
  next
    case (Some m)
    from search_match_at [OF Some] have here: "\<exists>j u. match_at r j u = Some m" .
    show ?thesis
    proof (cases "length (rest m) < length s")
      case True
      with "1.prems" Some have "t = whole m \<or> t \<in> set (match_all r (endpos m) (rest m))"
        by (simp add: match_all.simps [of r i s])
      with "1.IH"(1) [OF Some True] here show ?thesis by blast
    next
      case False
      with Some have unfold: "match_all r i s =
          whole m # (case s of [] \<Rightarrow> [] | c # cs \<Rightarrow> match_all r (i + 1) cs)"
        by (simp add: match_all.simps [of r i s])
      show ?thesis
      proof (cases s)
        case Nil
        with unfold "1.prems" have "t = whole m" by simp
        with here show ?thesis by blast
      next
        case (Cons c cs)
        with unfold have "match_all r i s = whole m # match_all r (i + 1) cs" by simp
        with "1.prems" have "t = whole m \<or> t \<in> set (match_all r (i + 1) cs)" by simp
        with "1.IH"(2) [OF Some False Cons] here show ?thesis by blast
      qed
    qed
  qed
qed

text \<open>
  A row with a number after the line \<^verbatim>\<open>End of report\<close> is not added.
\<close>

theorem report_sums_to_49_5_witness:
  "\<not> table_end (js ''Cherries      7'')
   \<and> cell_value (js ''7'') \<noteq> None
   \<and> sum_table (table_lines report @ [js ''Cherries      7'']) = Some (Fin (99 / 2))
   \<and> page_answer report = Fin (99 / 2)"
proof -
  have "\<not> table_end (js ''Cherries      7'')"
    by (simp add: rx_eval table_eval)
  moreover have "cell_value (js ''7'') \<noteq> None"
    unfolding cell_value_def Let_def
    by (simp add: rx_eval trim_def parseFloat_digit)
  moreover from report_sums_to_49_5 [of "[js ''Cherries      7'']"]
  have "sum_table (table_lines report @ [js ''Cherries      7'']) = Some (Fin (99 / 2))
      \<and> page_answer report = Fin (99 / 2)"
    by blast
  ultimately show ?thesis
    by blast
qed

lemma digits_first:
  assumes "rmatch (Cat (Rep is_digit 1 hi) b) i v g k = Some x"
  shows "\<exists>d v'. v = d # v' \<and> is_digit d"
proof -
  from assms have "backoff 1 (run_length is_digit hi v)
      (\<lambda>j. rmatch b (i + j) (drop j v) g k) = Some x"
    by simp
  from backoff_Some [OF this] have "1 \<le> run_length is_digit hi v"
    by auto
  then have "takeWhile is_digit v \<noteq> []"
    by (auto simp: run_length_def Let_def split: option.splits)
  then show ?thesis
    by (cases v) (auto split: if_splits)
qed

lemma token_shape:
  assumes "match_at token_re j u = Some m"
  shows "\<exists>d r. is_digit d \<and> (whole m = d # r \<or> whole m = 45 # d # r)"
proof -
  define digits where "digits = Cat (Rep is_digit 1 (Some 3))
    (Opt (Cat (Rep (\<lambda>c. c = 44 \<or> c = 46 \<or> is_digit c) 0 None) (Cls is_digit)))"
  define K where "K = (\<lambda>i' s' (g :: jsstring list).
    Some \<lparr>whole = take (i' - j) u, groups = g, endpos = i', rest = s'\<rparr>)"
  have len: "minlen digits = 1"
    by (simp add: digits_def)
  have shape: "\<exists>d v' n. v = d # v' \<and> is_digit d \<and> 1 \<le> n \<and> whole m = take (i + n - j) u"
    if "rmatch digits i v g K = Some m" for i v g
  proof -
    from that digits_first [of "Some 3" _ i v g K m] obtain d v' where "v = d # v'" "is_digit d"
      unfolding digits_def by blast
    moreover from rmatch_Some [OF that] len obtain n g' where
      "1 \<le> n" "K (i + n) (drop n v) g' = Some m"
      by auto
    ultimately show ?thesis
      by (auto simp: K_def)
  qed
  from assms have split: "(case rmatch (chr CHR ''-'') j u [] (\<lambda>i' s' g'. rmatch digits i' s' g' K) of
      Some r \<Rightarrow> Some r | None \<Rightarrow> rmatch digits j u [] K) = Some m"
    unfolding match_at_def token_re_def digits_def [symmetric] K_def [symmetric]
    by (simp only: rmatch.simps)
  show ?thesis
  proof (cases "rmatch (chr CHR ''-'') j u [] (\<lambda>i' s' g'. rmatch digits i' s' g' K)")
    case None
    with split have "rmatch digits j u [] K = Some m" by simp
    from shape [OF this] obtain d v' n where "u = d # v'" "is_digit d" "1 \<le> n"
      "whole m = take (j + n - j) u"
      by blast
    then have "whole m = d # take (n - 1) v'"
      by (cases n) auto
    with \<open>is_digit d\<close> show ?thesis by blast
  next
    case (Some r)
    with split have "rmatch (chr CHR ''-'') j u [] (\<lambda>i' s' g'. rmatch digits i' s' g' K) = Some m"
      by simp
    then obtain u' where u: "u = 45 # u'" and "rmatch digits (j + 1) u' [] K = Some m"
      by (auto simp: chr_def split: list.splits if_splits)
    from shape [OF this(2)] obtain d v' n where "u' = d # v'" "is_digit d" "1 \<le> n"
      "whole m = take (j + 1 + n - j) u"
      by blast
    with u have "whole m = 45 # d # take (n - 1) v'"
      by (cases n) auto
    with \<open>is_digit d\<close> show ?thesis by blast
  qed
qed

lemma token_value_not_NaN:
  assumes "t \<in> set (match_all token_re i s)"
  shows "token_value t \<noteq> NaN"
proof -
  from match_all_matches [OF assms] obtain j u m where
    "match_at token_re j u = Some m" "t = whole m"
    by blast
  with token_shape obtain d r where d: "is_digit d" and "t = d # r \<or> t = 45 # d # r"
    by blast
  then show ?thesis
    using parseFloat_digit [OF d] digit_facts(4) [OF d]
    by (auto simp: token_value_def)
qed

lemma foldl_add_token:
  "\<forall>t\<in>set ts. token_value t \<noteq> NaN \<Longrightarrow>
     foldl add_token acc ts = foldl fadd acc (map token_value ts)"
  by (induction ts arbitrary: acc) (simp_all add: add_token_def Let_def)

text \<open>
  The values of the examples without a header: the roundings, the parsed tokens, the
  lines and the matches of the token expression.
\<close>

lemma rnd_fine: "rnd (2500001 / 2500000) = Fin (4503601428810347 / 4503599627370496)"
  unfolding rnd_def Let_def by (simp add: rnd_eval)

lemma rnd_fine_again:
  "rnd (4503601428810347 / 4503599627370496) = Fin (4503601428810347 / 4503599627370496)"
  unfolding rnd_def Let_def by (simp add: rnd_eval)

lemma rnd_1: "rnd 1 = Fin 1"
  unfolding rnd_def Let_def by (simp add: rnd_eval)

lemma parse_fine: "parseFloat (js ''1.0000004'') = Fin (4503601428810347 / 4503599627370496)"
  unfolding parseFloat_def Let_def by (simp add: parse_eval rnd_fine)

lemma answer_fine: "answer (Fin (4503601428810347 / 4503599627370496)) = Fin 1"
  unfolding answer_def Let_def by (simp add: floor_rat_numeral rnd_1)

lemma rnd_more:
  "rnd (2501 / 2) = Fin (2501 / 2)" "rnd (- (1 / 2)) = Fin (- (1 / 2))" "rnd 7 = Fin 7"
  "rnd 1250 = Fin 1250" "rnd 1257 = Fin 1257"
  unfolding rnd_def Let_def by (simp_all add: rnd_eval)

lemma parse_more:
  "parseFloat (js ''1250.50'') = Fin (2501 / 2)"
  "parseFloat (js ''-0.5'') = Fin (- (1 / 2))"
  "parseFloat (js ''7'') = Fin 7"
  unfolding parseFloat_def Let_def by (simp_all add: parse_eval rnd_more)

lemma parse_unstripped: "parseFloat (js ''1,250.50'') = Fin 1"
  unfolding parseFloat_def Let_def by (simp add: parse_eval rnd_1)

lemma rnd_prices:
  "rnd (11 / 10) = Fin (2476979795053773 / 2251799813685248)"
  "rnd (2476979795053773 / 2251799813685248) = Fin (2476979795053773 / 2251799813685248)"
  "rnd (11 / 5) = Fin (2476979795053773 / 1125899906842624)"
  "rnd (7430939385161319 / 2251799813685248) = Fin (7430939385161319 / 2251799813685248)"
  "rnd (33 / 10) = Fin (3715469692580659 / 1125899906842624)"
  unfolding rnd_def Let_def by (simp_all add: rnd_eval)

lemma parse_prices:
  "parseFloat (js ''1.1'') = Fin (2476979795053773 / 2251799813685248)"
  "parseFloat (js ''2.2'') = Fin (2476979795053773 / 1125899906842624)"
  unfolding parseFloat_def Let_def by (simp_all add: parse_eval rnd_prices)

lemma prices_facts:
  "table_lines prices = [js ''1.1 and 2.2'']"
  "\<not> is_header (js ''1.1 and 2.2'')"
  "match_all token_re 0 prices = [js ''1.1'', js ''2.2'']"
  "filter (\<lambda>c. c \<noteq> 44) (js ''1.1'') = js ''1.1''"
  "filter (\<lambda>c. c \<noteq> 44) (js ''2.2'') = js ''2.2''"
      apply (simp add: prices_def table_lines_def rx_eval table_eval)
     apply (simp add: rx_eval is_header_def)
    apply (simp add: prices_def match_all.simps rx_eval)
   apply (simp_all add: js_def)
  done

lemma sum_prices:
  "foldl fadd (Fin 0) [Fin (2476979795053773 / 2251799813685248),
      Fin (2476979795053773 / 1125899906842624)] = Fin (7430939385161319 / 2251799813685248)"
  using rnd_prices(2,4) by simp

lemma table_lines_single:
  "table_lines (js ''Total cost: 120, tax: 30'') = [js ''Total cost: 120, tax: 30'']"
  "table_lines fine_print = [js ''1.0000004'']"
  by (simp_all add: fine_print_def table_lines_def rx_eval table_eval)

lemma no_headers:
  "\<not> is_header (js ''Total cost: 120, tax: 30'')" "\<not> is_header (js ''1.0000004'')"
  "\<not> is_header (js ''Due: 1,250.50 less -0.5'')" "\<not> is_header (js ''ref 7'')"
  by (simp_all add: rx_eval is_header_def)

lemma example_tokens:
  "match_all token_re 0 (js ''Total cost: 120, tax: 30'') = [js ''120'', js ''30'']"
  "match_all token_re 0 fine_print = [js ''1.0000004'']"
  "match_all token_re 0 invoice = [js ''1,250.50'', js ''-0.5'', js ''7'']"
  by (simp_all add: fine_print_def invoice_def match_all.simps rx_eval)

lemma stripped_tokens:
  "filter (\<lambda>c. c \<noteq> 44) (js ''120'') = js ''120''"
  "filter (\<lambda>c. c \<noteq> 44) (js ''30'') = js ''30''"
  "filter (\<lambda>c. c \<noteq> 44) (js ''1.0000004'') = js ''1.0000004''"
  "filter (\<lambda>c. c \<noteq> 44) (js ''1,250.50'') = js ''1250.50''"
  "filter (\<lambda>c. c \<noteq> 44) (js ''-0.5'') = js ''-0.5''"
  "filter (\<lambda>c. c \<noteq> 44) (js ''7'') = js ''7''"
  by (simp_all add: js_def)

text \<open>
  \<^verbatim>\<open>toFixed(6)\<close> moves a number that is not an integer to a multiple of \<open>10^-6\<close> at most
  half of \<open>10^-6\<close> away, and \<^verbatim>\<open>parseFloat\<close> reads the double nearest to it.
\<close>

lemma answer_near:
  assumes "of_int \<lfloor>x\<rfloor> \<noteq> x"
  shows "\<exists>k::int. answer (Fin x) = rnd (of_int k / 10 ^ 6)
            \<and> \<bar>of_int k / 10 ^ 6 - x\<bar> \<le> 1 / (2 * 10 ^ 6)"
proof -
  define m where "m = \<lfloor>\<bar>x\<bar> * 10 ^ 6 + 1 / 2\<rfloor>"
  have "of_int m \<le> \<bar>x\<bar> * 10 ^ 6 + 1 / 2" and "\<bar>x\<bar> * 10 ^ 6 + 1 / 2 < of_int m + 1"
    unfolding m_def by linarith+
  then have "\<bar>of_int m - \<bar>x\<bar> * 10 ^ 6\<bar> \<le> 1 / 2"
    by linarith
  then have near: "\<bar>of_int m / 10 ^ 6 - \<bar>x\<bar>\<bar> \<le> 1 / (2 * 10 ^ 6)"
    by (simp add: field_simps)
  show ?thesis
  proof (cases "x < 0")
    case True
    with assms have "answer (Fin x) = rnd (of_int (- m) / 10 ^ 6)"
      by (simp add: answer_def Let_def m_def)
    moreover have "of_int (- m) / 10 ^ 6 - x = - (of_int m / 10 ^ 6 - \<bar>x\<bar>)"
      using True by simp
    then have "\<bar>of_int (- m) / 10 ^ 6 - x\<bar> \<le> 1 / (2 * 10 ^ 6)"
      using near by (simp only: abs_minus_cancel)
    ultimately show ?thesis
      by blast
  next
    case False
    with assms have "answer (Fin x) = rnd (of_int m / 10 ^ 6)"
      by (simp add: answer_def Let_def m_def)
    moreover from False near have "\<bar>of_int m / 10 ^ 6 - x\<bar> \<le> 1 / (2 * 10 ^ 6)"
      by simp
    ultimately show ?thesis
      by blast
  qed
qed

text \<open>
  C7. When no line of the page is a header, the variable \<^verbatim>\<open>sum\<close> is the sum of the numbers
  of all matches of \<^verbatim>\<open>/-?\d{1,3}(?:[,.\d]*\d)?/g\<close> in the whole text, each parsed by
  \<^verbatim>\<open>parseFloat\<close> after its commas (code unit 44) are removed, added from left to right as
  doubles; none of them is skipped, since a match starts with a digit or with a minus
  sign and a digit and so never parses to NaN. What is returned is not this sum but the
  sum formatted: the sum itself when it is an integer, and otherwise the double nearest
  to a multiple of \<open>10^-6\<close> that is at most half of \<open>10^-6\<close> away from the sum. For
  \<^verbatim>\<open>Total cost: 120, tax: 30\<close> the matches are 120 and 30, and the sum and the answer
  are 150.
\<close>

theorem no_header_sums_tokens:
  "((\<forall>l\<in>set (table_lines txt). \<not> is_header l) \<longrightarrow>
      page_sum txt =
        foldl fadd (Fin 0)
          (map (\<lambda>t. parseFloat (filter (\<lambda>c. c \<noteq> 44) t)) (match_all token_re 0 txt))
      \<and> page_answer txt = answer (page_sum txt)
      \<and> (page_sum txt = Fin x \<and> of_int \<lfloor>x\<rfloor> = x \<longrightarrow> page_answer txt = Fin x)
      \<and> (page_sum txt = Fin x \<and> of_int \<lfloor>x\<rfloor> \<noteq> x \<longrightarrow>
           (\<exists>k::int. page_answer txt = rnd (of_int k / 10 ^ 6)
              \<and> \<bar>of_int k / 10 ^ 6 - x\<bar> \<le> 1 / (2 * 10 ^ 6))))
   \<and> match_all token_re 0 (js ''Total cost: 120, tax: 30'') = [js ''120'', js ''30'']
   \<and> page_sum (js ''Total cost: 120, tax: 30'') = Fin 150
   \<and> page_answer (js ''Total cost: 120, tax: 30'') = Fin 150"
proof -
  have general: "page_sum t =
      foldl fadd (Fin 0)
        (map (\<lambda>t. parseFloat (filter (\<lambda>c. c \<noteq> 44) t)) (match_all token_re 0 t))"
    if "\<forall>l\<in>set (table_lines t). \<not> is_header l" for t
  proof -
    from that have "sum_table (table_lines t) = None"
      by (simp add: sum_table_None)
    then have "page_sum t = foldl add_token (Fin 0) (match_all token_re 0 t)"
      by (simp add: page_sum_def sum_tokens_def)
    also have "\<dots> = foldl fadd (Fin 0) (map token_value (match_all token_re 0 t))"
      using foldl_add_token [of "match_all token_re 0 t" "Fin 0"] token_value_not_NaN
      by simp
    also have "map token_value (match_all token_re 0 t) =
        map (\<lambda>t. parseFloat (filter (\<lambda>c. c \<noteq> 44) t)) (match_all token_re 0 t)"
      unfolding token_value_def ..
    finally show ?thesis .
  qed
  have formatted: "page_answer txt = answer (page_sum txt)"
    by (simp add: page_answer_def)
  have whole: "page_answer txt = Fin x" if "page_sum txt = Fin x" and "of_int \<lfloor>x\<rfloor> = x"
    using that by (simp add: page_answer_def answer_def)
  have rounded: "\<exists>k::int. page_answer txt = rnd (of_int k / 10 ^ 6)
      \<and> \<bar>of_int k / 10 ^ 6 - x\<bar> \<le> 1 / (2 * 10 ^ 6)"
    if "page_sum txt = Fin x" and "of_int \<lfloor>x\<rfloor> \<noteq> x"
    using that answer_near [of x] by (simp add: page_answer_def)
  have none: "\<forall>l\<in>set (table_lines (js ''Total cost: 120, tax: 30'')). \<not> is_header l"
    by (simp add: table_lines_single no_headers)
  from general [OF none]
  have total: "page_sum (js ''Total cost: 120, tax: 30'') = Fin 150"
    by (simp add: example_tokens stripped_tokens parse_120 parse_30 rnd_values)
  then have "page_answer (js ''Total cost: 120, tax: 30'') = Fin 150"
    by (simp add: page_answer_def answer_150)
  with general formatted whole rounded total example_tokens(1) show ?thesis
    by blast
qed

text \<open>
  Two texts without a header. In the first, of two lines, \<^verbatim>\<open>1,250.50\<close> is read as 1250.5
  once its comma is removed (with the comma \<^verbatim>\<open>parseFloat\<close> stops at 1), \<^verbatim>\<open>-0.5\<close>
  keeps its sign, and the sum 1257 is an integer and is returned as it is. In the
  second the sum of the doubles of 1.1 and 2.2 is 3.3000000000000003, which is not an
  integer, and the answer is the double of 3.3.
\<close>

theorem no_header_sums_tokens_witness:
  "table_lines invoice = [js ''Due: 1,250.50 less -0.5'', js ''ref 7'']
   \<and> \<not> is_header (js ''Due: 1,250.50 less -0.5'')
   \<and> \<not> is_header (js ''ref 7'')
   \<and> match_all token_re 0 invoice = [js ''1,250.50'', js ''-0.5'', js ''7'']
   \<and> parseFloat (filter (\<lambda>c. c \<noteq> 44) (js ''1,250.50'')) = Fin (2501 / 2)
   \<and> parseFloat (js ''1,250.50'') = Fin 1
   \<and> parseFloat (filter (\<lambda>c. c \<noteq> 44) (js ''-0.5'')) = Fin (- (1 / 2))
   \<and> parseFloat (filter (\<lambda>c. c \<noteq> 44) (js ''7'')) = Fin 7
   \<and> page_sum invoice = Fin 1257
   \<and> page_answer invoice = Fin 1257
   \<and> table_lines prices = [js ''1.1 and 2.2'']
   \<and> \<not> is_header (js ''1.1 and 2.2'')
   \<and> match_all token_re 0 prices = [js ''1.1'', js ''2.2'']
   \<and> parseFloat (filter (\<lambda>c. c \<noteq> 44) (js ''1.1'')) = Fin (2476979795053773 / 2251799813685248)
   \<and> parseFloat (filter (\<lambda>c. c \<noteq> 44) (js ''2.2'')) = Fin (2476979795053773 / 1125899906842624)
   \<and> page_sum prices = Fin (7430939385161319 / 2251799813685248)
   \<and> page_answer prices = Fin (3715469692580659 / 1125899906842624)"
proof -
  have lines: "table_lines invoice = [js ''Due: 1,250.50 less -0.5'', js ''ref 7'']"
    by (simp add: invoice_def table_lines_def rx_eval table_eval)
  with no_headers have none: "\<forall>l\<in>set (table_lines invoice). \<not> is_header l"
    by simp
  have vals: "parseFloat (filter (\<lambda>c. c \<noteq> 44) (js ''1,250.50'')) = Fin (2501 / 2)"
    "parseFloat (filter (\<lambda>c. c \<noteq> 44) (js ''-0.5'')) = Fin (- (1 / 2))"
    "parseFloat (filter (\<lambda>c. c \<noteq> 44) (js ''7'')) = Fin 7"
    by (simp_all only: stripped_tokens parse_more)
  note invoice_page = no_header_sums_tokens [of invoice 1257]
  from invoice_page none
  have "page_sum invoice =
      foldl fadd (Fin 0)
        (map (\<lambda>t. parseFloat (filter (\<lambda>c. c \<noteq> 44) t)) (match_all token_re 0 invoice))"
    by blast
  then have total: "page_sum invoice = Fin 1257"
    by (simp add: example_tokens vals rnd_more)
  have "rat_of_int \<lfloor>1257 :: rat\<rfloor> = 1257"
    by simp
  with invoice_page none total have whole: "page_answer invoice = Fin 1257"
    by blast
  have none': "\<forall>l\<in>set (table_lines prices). \<not> is_header l"
    by (simp add: prices_facts)
  have vals': "parseFloat (filter (\<lambda>c. c \<noteq> 44) (js ''1.1'')) = Fin (2476979795053773 / 2251799813685248)"
    "parseFloat (filter (\<lambda>c. c \<noteq> 44) (js ''2.2'')) = Fin (2476979795053773 / 1125899906842624)"
    by (simp_all only: prices_facts parse_prices)
  note prices_page =
    no_header_sums_tokens [of prices "7430939385161319 / 2251799813685248"]
  from prices_page none'
  have "page_sum prices =
      foldl fadd (Fin 0)
        (map (\<lambda>t. parseFloat (filter (\<lambda>c. c \<noteq> 44) t)) (match_all token_re 0 prices))"
    by blast
  then have total': "page_sum prices = Fin (7430939385161319 / 2251799813685248)"
    by (simp only: prices_facts parse_prices list.map sum_prices)
  have "rat_of_int \<lfloor>7430939385161319 / 2251799813685248 :: rat\<rfloor> \<noteq>
      7430939385161319 / 2251799813685248"
    by (simp add: floor_rat_numeral)
  with prices_page none' total'
  obtain k :: int where k: "page_answer prices = rnd (of_int k / 10 ^ 6)"
    and near: "\<bar>of_int k / 10 ^ 6 - (7430939385161319 / 2251799813685248 :: rat)\<bar>
      \<le> 1 / (2 * 10 ^ 6)"
    by blast
  from near have "rat_of_int k * 2251799813685248 \<le> 7430940511061225842624"
    and "7430938259261412157376 \<le> rat_of_int k * 2251799813685248"
    by (simp_all add: abs_le_iff field_simps)
  then have "k = 3300000"
    by linarith
  with k have rounded: "page_answer prices = Fin (3715469692580659 / 1125899906842624)"
    by (simp add: rnd_prices)
  from lines no_headers(3,4) example_tokens(3) vals parse_unstripped total whole
    prices_facts(1,2,3) vals' total' rounded
  show ?thesis
    by blast
qed

text \<open>
  The answer is not always the sum of the tokens: the text \<^verbatim>\<open>1.0000004\<close> has no header
  and one token, whose value (the double nearest to 1.0000004) is the sum, and
  \<^verbatim>\<open>toFixed(6)\<close> prints it as \<^verbatim>\<open>1.000000\<close>, so the answer is 1.
\<close>

theorem fallback_answer_rounded_counterexample:
  "table_lines fine_print = [js ''1.0000004'']
   \<and> \<not> is_header (js ''1.0000004'')
   \<and> match_all token_re 0 fine_print = [js ''1.0000004'']
   \<and> foldl fadd (Fin 0) [parseFloat (filter (\<lambda>c. c \<noteq> 44) (js ''1.0000004''))] =
       Fin (4503601428810347 / 4503599627370496)
   \<and> page_sum fine_print = Fin (4503601428810347 / 4503599627370496)
   \<and> page_answer fine_print = Fin 1
   \<and> page_answer fine_print \<noteq> page_sum fine_print"
proof -
  have tok: "token_value (js ''1.0000004'') = Fin (4503601428810347 / 4503599627370496)"
    by (simp only: token_value_def stripped_tokens parse_fine)
  have one: "foldl fadd (Fin 0) [parseFloat (filter (\<lambda>c. c \<noteq> 44) (js ''1.0000004''))] =
       Fin (4503601428810347 / 4503599627370496)"
    by (simp add: stripped_tokens parse_fine rnd_fine_again)
  have "sum_table (table_lines fine_print) = None"
    by (simp add: table_lines_single no_headers)
  then have total: "page_sum fine_print = Fin (4503601428810347 / 4503599627370496)"
    by (simp add: page_sum_def sum_tokens_def example_tokens add_token_def tok rnd_fine_again)
  then have ans: "page_answer fine_print = Fin 1"
    by (simp add: page_answer_def answer_fine)
  from total ans have "page_answer fine_print \<noteq> page_sum fine_print"
    by simp
  with table_lines_single(2) no_headers(2) example_tokens(2) one total ans show ?thesis
    by blast
qed

lemma cell_value_stripped:
  "cell_value (filter (\<lambda>c. c \<notin> {44, 8377, 36, 8364, 163}) cell) = cell_value cell"
  by (simp add: cell_value_def)

lemma add_row_step:
  assumes "0 \<le> idx"
    and "nat idx < length (split gap_re dataLine)"
  shows "add_row idx dataLine acc =
      (case cell_value (trim (split gap_re dataLine ! nat idx)) of
         None \<Rightarrow> acc
       | Some num \<Rightarrow> fadd acc num)"
proof -
  from assms have "idx < int (length (map trim (split gap_re dataLine)))"
    by simp
  with assms show ?thesis
    by (simp add: add_row_def Let_def)
qed

lemma sum_rows_step:
  "\<not> table_end dataLine \<Longrightarrow>
     sum_rows idx (dataLine # ls) acc = sum_rows idx ls (add_row idx dataLine acc)"
  by simp

text \<open>
  C8. A consumed row whose cell at the value column is the rupee sign followed by
  \<^verbatim>\<open>1,234.50\<close> adds exactly 1234.5 to the running sum; a consumed row whose cell has no
  number leaves the sum as it is. The rupee, dollar, euro and pound signs and the
  commas are removed before the number is looked for, so the cell has the same value
  with any of the four signs.
\<close>

theorem rupee_cell_adds_1234_5:
  "(\<not> table_end dataLine \<and> 0 \<le> idx \<and> nat idx < length (split gap_re dataLine)
      \<and> trim (split gap_re dataLine ! nat idx) = 8377 # js ''1,234.50''
      \<longrightarrow> add_row idx dataLine acc = fadd acc (Fin (2469 / 2))
        \<and> sum_rows idx (dataLine # ls) acc = sum_rows idx ls (fadd acc (Fin (2469 / 2))))
   \<and> (\<not> table_end dataLine \<and> 0 \<le> idx \<and> nat idx < length (split gap_re dataLine)
      \<and> cell_value (trim (split gap_re dataLine ! nat idx)) = None
      \<longrightarrow> add_row idx dataLine acc = acc
        \<and> sum_rows idx (dataLine # ls) acc = sum_rows idx ls acc)
   \<and> cell_value (filter (\<lambda>c. c \<notin> {44, 8377, 36, 8364, 163}) cell) = cell_value cell
   \<and> cell_value (8377 # js ''1,234.50'') = Some (Fin (2469 / 2))
   \<and> cell_value (36 # js ''1,234.50'') = Some (Fin (2469 / 2))
   \<and> cell_value (8364 # js ''1,234.50'') = Some (Fin (2469 / 2))
   \<and> cell_value (163 # js ''1,234.50'') = Some (Fin (2469 / 2))"
proof -
  have same: "cell_value (c # js ''1,234.50'') = Some (Fin (2469 / 2))"
    if "c \<in> {8377, 36, 8364, 163}" for c
  proof -
    from that have "filter (\<lambda>c. c \<notin> {44, 8377, 36, 8364, 163}) (c # js ''1,234.50'') =
        filter (\<lambda>c. c \<notin> {44, 8377, 36, 8364, 163}) (8377 # js ''1,234.50'')"
      by auto
    then have "cell_value (c # js ''1,234.50'') = cell_value (8377 # js ''1,234.50'')"
      using cell_value_stripped [of "c # js ''1,234.50''"]
        cell_value_stripped [of "8377 # js ''1,234.50''"]
      by simp
    then show ?thesis by (simp add: cell_rupee)
  qed
  have adds: "add_row idx dataLine acc = fadd acc (Fin (2469 / 2))
      \<and> sum_rows idx (dataLine # ls) acc = sum_rows idx ls (fadd acc (Fin (2469 / 2)))"
    if "\<not> table_end dataLine" "0 \<le> idx" "nat idx < length (split gap_re dataLine)"
      "trim (split gap_re dataLine ! nat idx) = 8377 # js ''1,234.50''"
    using that by (simp add: add_row_step cell_rupee)
  have skips: "add_row idx dataLine acc = acc
      \<and> sum_rows idx (dataLine # ls) acc = sum_rows idx ls acc"
    if "\<not> table_end dataLine" "0 \<le> idx" "nat idx < length (split gap_re dataLine)"
      "cell_value (trim (split gap_re dataLine ! nat idx)) = None"
    using that by (simp add: add_row_step)
  from adds skips cell_value_stripped [of cell]
    same [of 8377] same [of 36] same [of 8364] same [of 163]
  show ?thesis
    by blast
qed

text \<open>
  The row \<^verbatim>\<open>Rent\<close> followed by the rupee cell, with 100 summed so far, and the same row
  with the cell \<^verbatim>\<open>n/a\<close>.
\<close>

theorem rupee_cell_adds_1234_5_witness:
  "\<not> table_end rent_line
   \<and> map trim (split gap_re rent_line) = [js ''Rent'', 8377 # js ''1,234.50'']
   \<and> add_row 1 rent_line (Fin 100) = Fin (2669 / 2)
   \<and> sum_rows 1 [rent_line] (Fin 100) = Fin (2669 / 2)
   \<and> cell_value (js ''n/a'') = None
   \<and> sum_rows 1 [js ''Rent        n/a''] (Fin 100) = Fin 100"
proof -
  have a: "\<not> table_end rent_line"
    by (simp add: rent_line_def rx_eval table_eval)
  have s: "split gap_re rent_line = [js ''Rent'', 8377 # js ''1,234.50'']"
    by (simp add: rent_line_def rx_eval table_eval)
  have t: "trim (js ''Rent'') = js ''Rent''" "trim (8377 # js ''1,234.50'') = 8377 # js ''1,234.50''"
    "trim (js ''n/a'') = js ''n/a''"
    by (simp_all add: trim_def js_def is_ws_def)
  from s t have b: "map trim (split gap_re rent_line) = [js ''Rent'', 8377 # js ''1,234.50'']"
    by simp
  from s t have c: "nat 1 < length (split gap_re rent_line)"
    "trim (split gap_re rent_line ! nat 1) = 8377 # js ''1,234.50''"
    by simp_all
  have r: "rnd (2669 / 2) = Fin (2669 / 2)"
    unfolding rnd_def Let_def by (simp add: rnd_eval)
  have d: "\<not> table_end (js ''Rent        n/a'')"
    by (simp add: rx_eval table_eval)
  have e: "split gap_re (js ''Rent        n/a'') = [js ''Rent'', js ''n/a'']"
    by (simp add: rx_eval table_eval)
  with t have f: "nat 1 < length (split gap_re (js ''Rent        n/a''))"
    "trim (split gap_re (js ''Rent        n/a'') ! nat 1) = js ''n/a''"
    by simp_all
  have g: "cell_value (js ''n/a'') = None"
    unfolding cell_value_def Let_def by (simp add: rx_eval trim_def)
  from rupee_cell_adds_1234_5 [of rent_line 1 "Fin 100" "[]"] a c r
  have "add_row 1 rent_line (Fin 100) = Fin (2669 / 2)"
    "sum_rows 1 [rent_line] (Fin 100) = Fin (2669 / 2)"
    by simp_all
  moreover from rupee_cell_adds_1234_5 [of "js ''Rent        n/a''" 1 "Fin 100" "[]"] d f g
  have "sum_rows 1 [js ''Rent        n/a''] (Fin 100) = Fin 100"
    by simp
  ultimately show ?thesis
    using a b g by simp
qed

section \<open>Properties of the request validation\<close>

lemma validatePayload_truthy:
  "validatePayload body \<longleftrightarrow>
     truthy (getprop body (js ''email'')) \<and> truthy (getprop body (js ''secret''))
       \<and> truthy (getprop body (js ''url''))"
  by (cases body) (auto simp: validatePayload_def)

lemma truthy_present: "truthy (getprop body k) \<Longrightarrow> present body k"
  by (cases body) (auto split: option.splits)

text \<open>
  C9, as amended. The handler sends 400 when any of \<^verbatim>\<open>email\<close>, \<^verbatim>\<open>secret\<close>, \<^verbatim>\<open>url\<close> is
  absent or falsy, which is the case of every body that is not an object; it sends 403
  when the three are truthy and \<^verbatim>\<open>secret\<close> is not the configured string; otherwise it
  sends 200 and then starts the background job. One response is sent for every request,
  and the job starts after a 200 only.
\<close>

theorem webhook_outcome:
  "(\<not> present body (js ''email'') \<or> \<not> present body (js ''secret'')
      \<or> \<not> present body (js ''url'') \<longrightarrow> webhook envvar body = [Respond 400])
   \<and> (\<not> truthy (getprop body (js ''email'')) \<or> \<not> truthy (getprop body (js ''secret''))
      \<or> \<not> truthy (getprop body (js ''url'')) \<longrightarrow> webhook envvar body = [Respond 400])
   \<and> (truthy (getprop body (js ''email'')) \<and> truthy (getprop body (js ''secret''))
      \<and> truthy (getprop body (js ''url''))
      \<and> getprop body (js ''secret'') \<noteq> JStr (APP_SECRET envvar)
      \<longrightarrow> webhook envvar body = [Respond 403])
   \<and> (truthy (getprop body (js ''email'')) \<and> truthy (getprop body (js ''url''))
      \<and> getprop body (js ''secret'') = JStr (APP_SECRET envvar)
      \<longrightarrow> webhook envvar body = [Respond 200, StartJob])
   \<and> webhook envvar body \<in> {[Respond 400], [Respond 403], [Respond 200, StartJob]}
   \<and> (StartJob \<in> set (webhook envvar body) \<longleftrightarrow> webhook envvar body = [Respond 200, StartJob])"
proof -
  have secret_truthy: "truthy (JStr (APP_SECRET envvar))"
    by (simp add: APP_SECRET_def js_def split: option.splits)
  show ?thesis
    using secret_truthy
    by (auto simp: webhook_def validatePayload_truthy intro: truthy_present)
qed

theorem webhook_outcome_witness:
  "webhook None JNull = [Respond 400]
   \<and> webhook None (JObj [(js ''email'', JStr (js ''a@b.c'')), (js ''secret'', JStr (js ''guess'')),
        (js ''url'', JStr (js ''http://q''))]) = [Respond 403]
   \<and> webhook None (JObj [(js ''email'', JStr (js ''a@b.c'')),
        (js ''secret'', JStr (js ''replace_me_secret'')),
        (js ''url'', JStr (js ''http://q''))]) = [Respond 200, StartJob]"
  using webhook_outcome [of JNull None]
    webhook_outcome [of "JObj [(js ''email'', JStr (js ''a@b.c'')),
      (js ''secret'', JStr (js ''guess'')), (js ''url'', JStr (js ''http://q''))]" None]
    webhook_outcome [of "JObj [(js ''email'', JStr (js ''a@b.c'')),
      (js ''secret'', JStr (js ''replace_me_secret'')), (js ''url'', JStr (js ''http://q''))]" None]
  by (simp add: js_def APP_SECRET_def)

text \<open>
  C9 as stated fails: a body whose three fields are all present, with a \<^verbatim>\<open>secret\<close> that
  differs from the configured one, is answered with 400 and not with 403 when its
  \<^verbatim>\<open>email\<close> is the empty string.
\<close>

theorem webhook_present_counterexample:
  "present (JObj [(js ''email'', JStr []), (js ''secret'', JStr (js ''guess'')),
       (js ''url'', JStr (js ''http://q''))]) (js ''email'')
   \<and> present (JObj [(js ''email'', JStr []), (js ''secret'', JStr (js ''guess'')),
       (js ''url'', JStr (js ''http://q''))]) (js ''secret'')
   \<and> present (JObj [(js ''email'', JStr []), (js ''secret'', JStr (js ''guess'')),
       (js ''url'', JStr (js ''http://q''))]) (js ''url'')
   \<and> getprop (JObj [(js ''email'', JStr []), (js ''secret'', JStr (js ''guess'')),
       (js ''url'', JStr (js ''http://q''))]) (js ''secret'') \<noteq> JStr (APP_SECRET None)
   \<and> webhook None (JObj [(js ''email'', JStr []), (js ''secret'', JStr (js ''guess'')),
       (js ''url'', JStr (js ''http://q''))]) = [Respond 400]
   \<and> webhook None (JObj [(js ''email'', JStr []), (js ''secret'', JStr (js ''guess'')),
       (js ''url'', JStr (js ''http://q''))]) \<noteq> [Respond 403]"
  by (simp add: js_def APP_SECRET_def webhook_def validatePayload_def)

text \<open>
  C10. A required field that is present with a falsy value (the empty string, 0, null,
  false) is answered with 400, as is the same body with the field removed.
\<close>

theorem falsy_field_as_absent:
  assumes "k \<in> {js ''email'', js ''secret'', js ''url''}"
    and "map_of kvs k = Some v"
    and "\<not> truthy v"
  shows "present (JObj kvs) k
    \<and> webhook envvar (JObj kvs) = [Respond 400]
    \<and> \<not> present (JObj (filter (\<lambda>kv. fst kv \<noteq> k) kvs)) k
    \<and> webhook envvar (JObj (filter (\<lambda>kv. fst kv \<noteq> k) kvs)) = [Respond 400]"
proof -
  have gone: "map_of (filter (\<lambda>kv. fst kv \<noteq> k) kvs) k = None"
    by (induction kvs) auto
  have "\<not> truthy (getprop (JObj kvs) k)"
    using assms by simp
  moreover have "\<not> truthy (getprop (JObj (filter (\<lambda>kv. fst kv \<noteq> k) kvs)) k)"
    using gone by simp
  ultimately show ?thesis
    using assms(1,2) gone by (auto simp: webhook_def validatePayload_truthy)
qed

theorem falsy_field_as_absent_witness:
  "webhook None (JObj [(js ''email'', JStr (js ''a@b.c'')), (js ''secret'', JStr []),
      (js ''url'', JStr (js ''http://q''))]) = [Respond 400]
   \<and> webhook None (JObj [(js ''email'', JStr (js ''a@b.c'')),
      (js ''url'', JStr (js ''http://q''))]) = [Respond 400]
   \<and> webhook None (JObj [(js ''email'', JNum (Fin 0)),
      (js ''secret'', JStr (js ''replace_me_secret'')), (js ''url'', JStr (js ''http://q''))])
        = [Respond 400]
   \<and> webhook None (JObj [(js ''email'', JStr (js ''a@b.c'')),
      (js ''secret'', JStr (js ''replace_me_secret'')), (js ''url'', JNull)]) = [Respond 400]"
  using falsy_field_as_absent [of "js ''secret''" "[(js ''email'', JStr (js ''a@b.c'')),
      (js ''secret'', JStr []), (js ''url'', JStr (js ''http://q''))]" "JStr []" None]
    falsy_field_as_absent [of "js ''email''" "[(js ''email'', JNum (Fin 0)),
      (js ''secret'', JStr (js ''replace_me_secret'')), (js ''url'', JStr (js ''http://q''))]"
      "JNum (Fin 0)" None]
    falsy_field_as_absent [of "js ''url''" "[(js ''email'', JStr (js ''a@b.c'')),
      (js ''secret'', JStr (js ''replace_me_secret'')), (js ''url'', JNull)]" JNull None]
  by (simp add: js_def)

end
